theory Spec2Isabelle
  imports Complex_Main "HOL-Library.AList" "HOL-Library.Log_Nat"
begin

section \<open>Data model (types.ts)\<close>

text \<open>
  The plan types of the application. Image, audio and video values are opaque encoded
  strings (data URLs, object URLs); a JavaScript \<^verbatim>\<open>number\<close> that holds a step number is
  an \<^typ>\<open>int\<close>, an array index is a \<^typ>\<open>nat\<close>. Fields that only the presentation reads
  (quantities, costs, tips, difficulty labels) are left out.
\<close>

datatype AppState = INPUT | ANALYZING | RESULT | ERROR

datatype category = tool | consumable | furniture | decor

record Material =
  name :: string
  category :: category

record Step =
  stepNumber :: int
  title :: string
  instruction :: string
  substeps :: "string list"
  visualizationPrompt :: string

record DIYPlan =
  projectTitle :: string
  styleAnalysis :: string
  materials :: "Material list"
  steps :: "Step list"

text \<open>
  A rejected promise of the generation service (\<^verbatim>\<open>throw new Error(...)\<close> in
  geminiService.ts, or a network failure) is a value.
\<close>

datatype gen_error = GenerationError string

type_synonym 'a outcome = "gen_error + 'a"

text \<open>
  JavaScript truthiness of a \<^verbatim>\<open>string | null | undefined\<close>: absent values and the
  empty string are falsy.
\<close>

definition truthy :: "string option \<Rightarrow> bool" where
  "truthy v = (case v of None \<Rightarrow> False | Some s \<Rightarrow> s \<noteq> [])"

section \<open>The step visual store\<close>

text \<open>
  \<^verbatim>\<open>Record<number, string>\<close> whose keys the code enumerates (\<^verbatim>\<open>Object.keys\<close>) is an
  association list; \<^verbatim>\<open>{ ...prev, [index]: imageUrl }\<close> is \<^const>\<open>AList.update\<close>, which
  overwrites a present key in place and appends an absent one, and \<^verbatim>\<open>delete\<close> is
  \<^const>\<open>AList.delete\<close>.

  \<^verbatim>\<open>
  setStepVisuals(prev => {
    const newState = { ...prev, [index]: imageUrl };
    Object.keys(prev).forEach(key => {
      const keyNum = parseInt(key);
      if (keyNum > index) { delete newState[keyNum]; }
    });
    return newState;
  });
  \<close>

  A key of the object is the decimal print of its number. Below \<open>10^21\<close> in absolute
  value an integer prints in plain decimal and \<^verbatim>\<open>parseInt\<close> reads it back. From
  \<open>10^21\<close> on it prints in exponent notation (\<^verbatim>\<open>1e+21\<close>, \<^verbatim>\<open>-2.5e+22\<close>) and
  \<^verbatim>\<open>parseInt\<close> reads only the digit before the point or the exponent, with the sign.
  Which digit that is depends on the shortest print of the number; \<open>lead\<close> stands for
  it. The loop gives the same store for every \<open>lead\<close> whose values print in plain
  decimal (lemma \<open>stepVisualsLoop_lead_irrelevant\<close>), so \<open>stepVisualsUpdater\<close> is the
  loop with the digit 1.
\<close>

type_synonym visuals = "(int \<times> string) list"

definition plainDecimal :: "int \<Rightarrow> bool" where
  "plainDecimal key = (\<bar>key\<bar> < 10 ^ 21)"

definition parseInt :: "(int \<Rightarrow> int) \<Rightarrow> int \<Rightarrow> int" where
  "parseInt lead key = (if plainDecimal key then key else lead key)"

definition stepVisualsLoop :: "(int \<Rightarrow> int) \<Rightarrow> int \<Rightarrow> string \<Rightarrow> visuals \<Rightarrow> visuals" where
  "stepVisualsLoop lead index imageUrl prev =
     fold (\<lambda>key newState.
             let keyNum = parseInt lead key
             in if keyNum > index then AList.delete keyNum newState else newState)
       (map fst prev) (AList.update index imageUrl prev)"

definition stepVisualsUpdater :: "int \<Rightarrow> string \<Rightarrow> visuals \<Rightarrow> visuals" where
  "stepVisualsUpdater index imageUrl prev =
     stepVisualsLoop (\<lambda>key. if key < 0 then - 1 else 1) index imageUrl prev"

section \<open>Application state\<close>

text \<open>
  The repository holds two builds of the App component. Both keep the plan, the step
  visuals, the in-flight marker, the checklist and the material cache (the fields of
  \<open>app\<close>); the first adds the variant renders and the tour video, the second the summary
  audio and the night-tour video. A record that is only read by key
  (\<^verbatim>\<open>completedSubsteps\<close>, \<^verbatim>\<open>materialImages\<close>) is a map, where an absent key reads as
  \<^verbatim>\<open>undefined\<close>.

  \<open>gatewayLog\<close> and \<open>stepImagesInFlight\<close> are not fields of the component. The log
  records, in order, every request the page sends to the generation service, so that the
  number of requests can be stated; a step-image request carries, before the arguments of
  the call, the number of the step it is sent for. \<open>GenerateStepImage\<close> is the request
  of the automatic sequencing (prompt, context image, text of the earlier steps),
  \<open>RegenerateStepImage\<close> that of a StepVisualizer (prompt, context image, lighting,
  camera angle). \<open>stepImagesInFlight\<close> counts the step-image requests that have been
  sent and have not settled yet. An uploaded image is its base64 string. The state of
  the input form (dimensions, style notes), of the substep editor, of the error message
  and of the PDF export is not modelled.
\<close>

datatype gateway_call =
    GenerateDIYPlan string string
  | GenerateStepImage int string "string option" "string option"
  | RegenerateStepImage int string "string option" string string
  | GenerateVariantImage "string option" string string string
  | GenerateProductImage string string
  | GenerateRoomTourVideo string string
  | GenerateNightTourVideo string
  | GenerateProjectSummaryAudio DIYPlan

record app =
  appState :: AppState
  plan :: "DIYPlan option"
  inspirationImage :: "string option"
  currentImage :: "string option"
  stepVisuals :: visuals
  generatingStepIndex :: "int option"
  completedSubsteps :: "string \<Rightarrow> bool option"
  selectedMaterial :: "Material option"
  materialImages :: "string \<Rightarrow> string option"
  generatingMaterialImage :: bool
  gatewayLog :: "gateway_call list"
  stepImagesInFlight :: nat

record app_variants = app +
  videoUrl :: "string option"
  isVideoLoading :: bool
  variants :: "(string \<times> string) list"
  isVariantsLoading :: bool

record app_night = app +
  summaryAudioBuffer :: "string option"
  isSummaryLoading :: bool
  showSummaryPlayer :: bool
  nightVideoUrl :: "string option"
  isNightVideoLoading :: bool

subsection \<open>handleStepVisualGenerated\<close>

text \<open>
  First build: \<^verbatim>\<open>setStepVisuals(prev => ...); setVariants({});\<close>.
  Second build: \<^verbatim>\<open>setStepVisuals(prev => ...); setNightVideoUrl(null);
  setSummaryAudioBuffer(null);\<close>.
\<close>

definition handleStepVisualGenerated_variants ::
    "int \<Rightarrow> string \<Rightarrow> app_variants \<Rightarrow> app_variants" where
  "handleStepVisualGenerated_variants index imageUrl s =
     s\<lparr>stepVisuals := stepVisualsUpdater index imageUrl (stepVisuals s), variants := []\<rparr>"

definition handleStepVisualGenerated_night ::
    "int \<Rightarrow> string \<Rightarrow> app_night \<Rightarrow> app_night" where
  "handleStepVisualGenerated_night index imageUrl s =
     s\<lparr>stepVisuals := stepVisualsUpdater index imageUrl (stepVisuals s),
       nightVideoUrl := None, summaryAudioBuffer := None\<rparr>"

section \<open>The sequencing orchestrator\<close>

text \<open>
  What one evaluation of the auto-generation effect decides. \<open>Throws\<close> is the TypeError
  of \<^verbatim>\<open>plan.steps[plan.steps.length - 1].stepNumber\<close> on a plan without steps.
  \<open>ArrayHole\<close> is no JavaScript error: it marks a write that would leave an
  \<^verbatim>\<open>undefined\<close> entry in a substep array, which a \<^typ>\<open>string list\<close> cannot hold.
\<close>

datatype js_error = TypeError | ArrayHole

datatype action = NoAction | GenerateVisualForStep Step | GenerateVariants | Throws

text \<open>
  \<^verbatim>\<open>
  const isFinalStepVisualized = () => {
    if (!plan) return false;
    const lastStepIndex = plan.steps[plan.steps.length - 1].stepNumber;
    return !!stepVisuals[lastStepIndex];
  };
  \<close>
\<close>

definition isFinalStepVisualized :: "'a app_scheme \<Rightarrow> js_error + bool" where
  "isFinalStepVisualized s =
     (case plan s of
        None \<Rightarrow> Inr False
      | Some p \<Rightarrow>
          (case steps p of
             [] \<Rightarrow> Inl TypeError
           | _ \<Rightarrow> Inr (truthy (map_of (stepVisuals s) (stepNumber (last (steps p)))))))"

text \<open>
  \<^verbatim>\<open>plan.steps.find(step => !stepVisuals[step.stepNumber])\<close>
\<close>

definition nextStep :: "'a app_scheme \<Rightarrow> DIYPlan \<Rightarrow> Step option" where
  "nextStep s p = find (\<lambda>step. \<not> truthy (map_of (stepVisuals s) (stepNumber step))) (steps p)"

text \<open>
  First build:
  \<^verbatim>\<open>
  useEffect(() => {
    if (appState !== AppState.RESULT || !plan) return;
    if (generatingStepIndex !== null) return;
    if (isVideoLoading || videoUrl) return;
    const nextStep = plan.steps.find(step => !stepVisuals[step.stepNumber]);
    if (nextStep) {
      generateVisualForStep(nextStep);
    } else if (isFinalStepVisualized() && Object.keys(variants).length === 0
               && !isVariantsLoading) {
      handleGenerateVariants();
    }
  }, [appState, plan, stepVisuals, generatingStepIndex, isVideoLoading, videoUrl,
      variants, isVariantsLoading]);
  \<close>
\<close>

definition orchestrator_variants :: "app_variants \<Rightarrow> action" where
  "orchestrator_variants s =
     (case plan s of
        None \<Rightarrow> NoAction
      | Some p \<Rightarrow>
          if appState s \<noteq> RESULT then NoAction
          else if generatingStepIndex s \<noteq> None then NoAction
          else if isVideoLoading s \<or> truthy (videoUrl s) then NoAction
          else (case nextStep s p of
                  Some step \<Rightarrow> GenerateVisualForStep step
                | None \<Rightarrow>
                    (case isFinalStepVisualized s of
                       Inl e \<Rightarrow> Throws
                     | Inr final \<Rightarrow>
                         if final \<and> length (variants s) = 0 \<and> \<not> isVariantsLoading s
                         then GenerateVariants else NoAction)))"

text \<open>
  Second build:
  \<^verbatim>\<open>
  useEffect(() => {
    if (appState !== AppState.RESULT || !plan) return;
    if (generatingStepIndex !== null) return;
    const nextStep = plan.steps.find(step => !stepVisuals[step.stepNumber]);
    if (nextStep) { generateVisualForStep(nextStep); }
  }, [appState, plan, stepVisuals, generatingStepIndex]);
  \<close>
\<close>

definition orchestrator_night :: "app_night \<Rightarrow> action" where
  "orchestrator_night s =
     (case plan s of
        None \<Rightarrow> NoAction
      | Some p \<Rightarrow>
          if appState s \<noteq> RESULT then NoAction
          else if generatingStepIndex s \<noteq> None then NoAction
          else (case nextStep s p of
                  Some step \<Rightarrow> GenerateVisualForStep step
                | None \<Rightarrow> NoAction))"

subsection \<open>generateVisualForStep\<close>

text \<open>
  An async function is its synchronous part up to the \<^verbatim>\<open>await\<close> (\<open>_start\<close>: the
  in-flight marker is set and the request is sent) and its continuation once the promise
  has settled (\<open>_settle\<close>, given the outcome), \<^verbatim>\<open>finally\<close> included.

  \<^verbatim>\<open>
  setGeneratingStepIndex(step.stepNumber);
  try {
    let contextBase64 = currentImage?.base64;
    if (step.stepNumber > 1) {
      const prevStepImage = stepVisuals[step.stepNumber - 1];
      if (prevStepImage) { contextBase64 = prevStepImage; }
    }
    const url = await generateStepImage(step.visualizationPrompt, contextBase64);
    handleStepVisualGenerated(step.stepNumber, url);
  } catch (e) {
    console.error(...);
    // In case of error, we pause auto-gen for this step (leaving it null in visuals)
    // The user can manually retry using the button in StepVisualizer
  } finally {
    setGeneratingStepIndex(null);
  }
  \<close>
  The second build also passes the instructions of the earlier steps, joined by
  \<^verbatim>\<open>". "\<close>.
\<close>

definition contextBase64 :: "'a app_scheme \<Rightarrow> Step \<Rightarrow> string option" where
  "contextBase64 s step =
     (if stepNumber step > 1 \<and> truthy (map_of (stepVisuals s) (stepNumber step - 1))
      then map_of (stepVisuals s) (stepNumber step - 1)
      else currentImage s)"

fun join :: "string \<Rightarrow> string list \<Rightarrow> string" where
  "join sep [] = []"
| "join sep [x] = x"
| "join sep (x # y # ys) = x @ sep @ join sep (y # ys)"

definition previousContext :: "'a app_scheme \<Rightarrow> Step \<Rightarrow> string" where
  "previousContext s step =
     (case plan s of
        None \<Rightarrow> []
      | Some p \<Rightarrow>
          join ''. '' (map instruction (filter (\<lambda>t. stepNumber t < stepNumber step) (steps p))))"

definition generateVisualForStep_variants_start :: "Step \<Rightarrow> app_variants \<Rightarrow> app_variants" where
  "generateVisualForStep_variants_start step s =
     s\<lparr>generatingStepIndex := Some (stepNumber step),
       gatewayLog := gatewayLog s @
         [GenerateStepImage (stepNumber step) (visualizationPrompt step) (contextBase64 s step) None],
       stepImagesInFlight := Suc (stepImagesInFlight s)\<rparr>"

definition generateVisualForStep_variants_settle ::
    "Step \<Rightarrow> string outcome \<Rightarrow> app_variants \<Rightarrow> app_variants" where
  "generateVisualForStep_variants_settle step res s =
     (case res of
        Inr url \<Rightarrow> handleStepVisualGenerated_variants (stepNumber step) url s
      | Inl e \<Rightarrow> s)
       \<lparr>generatingStepIndex := None, stepImagesInFlight := stepImagesInFlight s - 1\<rparr>"

definition generateVisualForStep_night_start :: "Step \<Rightarrow> app_night \<Rightarrow> app_night" where
  "generateVisualForStep_night_start step s =
     s\<lparr>generatingStepIndex := Some (stepNumber step),
       gatewayLog := gatewayLog s @
         [GenerateStepImage (stepNumber step) (visualizationPrompt step) (contextBase64 s step)
            (Some (previousContext s step))],
       stepImagesInFlight := Suc (stepImagesInFlight s)\<rparr>"

definition generateVisualForStep_night_settle ::
    "Step \<Rightarrow> string outcome \<Rightarrow> app_night \<Rightarrow> app_night" where
  "generateVisualForStep_night_settle step res s =
     (case res of
        Inr url \<Rightarrow> handleStepVisualGenerated_night (stepNumber step) url s
      | Inl e \<Rightarrow> s)
       \<lparr>generatingStepIndex := None, stepImagesInFlight := stepImagesInFlight s - 1\<rparr>"

subsection \<open>Manual generation (StepVisualizer.tsx)\<close>

text \<open>
  The page renders one StepVisualizer per step of the plan, with
  \<^verbatim>\<open>
  base64Context={idx === 0 ? currentImage?.base64 : stepVisuals[idx]}
  isLocked={idx > 0 && !stepVisuals[step.stepNumber - 1]}
  isGenerating={generatingStepIndex === step.stepNumber}
  onGenerate={(url) => handleStepVisualGenerated(step.stepNumber, url)}
  existingImage={stepVisuals[step.stepNumber]}
  \<close>
  and the visualizer has
  \<^verbatim>\<open>
  const isLoading = isGenerating || internalLoading;
  const handleGenerate = async () => {
    setInternalLoading(true);
    setError(null);
    try {
      const url = await generateStepImage(step.visualizationPrompt, base64Context,
        { lighting, cameraAngle });
      onGenerate(url);
    } catch (err) { console.error(err); setError(...); }
    finally { setInternalLoading(false); }
  };
  \<close>
  With an existing image it shows a Regenerate button (\<^verbatim>\<open>disabled={isLoading}\<close>); without
  one it shows a button only when it is neither loading nor locked. The lighting and the
  camera angle chosen in the visualizer are arguments here. The second build passes a
  \<^verbatim>\<open>previousContext\<close> as well, which this visualizer does not read. \<^verbatim>\<open>internalLoading\<close> is
  state of the visualizer and is not modelled: the model lets a visualizer be clicked
  again while its own request is outstanding, which the page does not. What holds in
  every state the model reaches holds in every state of the page; the sessions given
  below as examples click a visualizer at most once.
\<close>

definition base64Context :: "'a app_scheme \<Rightarrow> nat \<Rightarrow> string option" where
  "base64Context s idx = (if idx = 0 then currentImage s else map_of (stepVisuals s) (int idx))"

definition isLocked :: "'a app_scheme \<Rightarrow> nat \<Rightarrow> Step \<Rightarrow> bool" where
  "isLocked s idx step = (0 < idx \<and> \<not> truthy (map_of (stepVisuals s) (stepNumber step - 1)))"

definition isGenerating :: "'a app_scheme \<Rightarrow> Step \<Rightarrow> bool" where
  "isGenerating s step = (generatingStepIndex s = Some (stepNumber step))"

definition handleGenerate_start :: "nat \<Rightarrow> Step \<Rightarrow> string \<Rightarrow> string \<Rightarrow> 'a app_scheme \<Rightarrow> 'a app_scheme" where
  "handleGenerate_start idx step lighting cameraAngle s =
     s\<lparr>gatewayLog := gatewayLog s @
         [RegenerateStepImage (stepNumber step) (visualizationPrompt step) (base64Context s idx)
            lighting cameraAngle],
       stepImagesInFlight := Suc (stepImagesInFlight s)\<rparr>"

definition stepVisualizer_onClick :: "nat \<Rightarrow> string \<Rightarrow> string \<Rightarrow> 'a app_scheme \<Rightarrow> 'a app_scheme" where
  "stepVisualizer_onClick idx lighting cameraAngle s =
     (case plan s of
        None \<Rightarrow> s
      | Some p \<Rightarrow>
          if appState s \<noteq> RESULT \<or> length (steps p) \<le> idx then s
          else
            (let step = steps p ! idx
             in if isGenerating s step then s
                else if truthy (map_of (stepVisuals s) (stepNumber step))
                        \<or> \<not> isLocked s idx step
                then handleGenerate_start idx step lighting cameraAngle s
                else s))"

definition handleGenerate_variants_settle ::
    "Step \<Rightarrow> string outcome \<Rightarrow> app_variants \<Rightarrow> app_variants" where
  "handleGenerate_variants_settle step res s =
     (case res of
        Inr url \<Rightarrow> handleStepVisualGenerated_variants (stepNumber step) url s
      | Inl e \<Rightarrow> s)\<lparr>stepImagesInFlight := stepImagesInFlight s - 1\<rparr>"

definition handleGenerate_night_settle ::
    "Step \<Rightarrow> string outcome \<Rightarrow> app_night \<Rightarrow> app_night" where
  "handleGenerate_night_settle step res s =
     (case res of
        Inr url \<Rightarrow> handleStepVisualGenerated_night (stepNumber step) url s
      | Inl e \<Rightarrow> s)\<lparr>stepImagesInFlight := stepImagesInFlight s - 1\<rparr>"

subsection \<open>handleGenerateVariants (first build)\<close>

text \<open>
  The three named configurations, as (name, angle, lighting).
\<close>

definition variantConfigs :: "(string \<times> string \<times> string) list" where
  "variantConfigs =
     [(''Golden Hour Glow'', ''Match Reference'',
         ''Golden Hour, warm sunlight streaming in, cozy atmosphere''),
      (''Evening Ambience'', ''Match Reference'',
         ''Night time, interior artificial lights on, cozy and intimate''),
      (''Wide Perspective'', ''Wide Angle'', ''Bright natural daylight'')]"

text \<open>
  \<^verbatim>\<open>
  if (!plan) return;
  setIsVariantsLoading(true);
  const lastStepIdx = plan.steps[plan.steps.length - 1].stepNumber;
  const finalImage = stepVisuals[lastStepIdx];
  const style = plan.styleAnalysis;
  try {
    const promises = variantConfigs.map(async (conf) => {
      try {
        const url = await generateVariantImage(finalImage, conf.angle, conf.lighting, style);
        return { name: conf.name, url };
      } catch (e) { console.error(...); return null; }
    });
    const results = await Promise.all(promises);
    const newVariants: Record<string, string> = {};
    results.forEach(res => { if (res) newVariants[res.name] = res.url; });
    setVariants(newVariants);
  } catch(e) { console.error(...); } finally { setIsVariantsLoading(false); }
  \<close>
  On a plan without steps the read of \<^verbatim>\<open>lastStepIdx\<close> throws before the \<^verbatim>\<open>try\<close>: the
  loading flag stays set and no request is sent. \<open>gw\<close> gives the outcome of the
  request of each configuration.
\<close>

definition handleGenerateVariants_start :: "app_variants \<Rightarrow> app_variants" where
  "handleGenerateVariants_start s =
     (case plan s of
        None \<Rightarrow> s
      | Some p \<Rightarrow>
          (case steps p of
             [] \<Rightarrow> s\<lparr>isVariantsLoading := True\<rparr>
           | _ \<Rightarrow>
               s\<lparr>isVariantsLoading := True,
                 gatewayLog := gatewayLog s @
                   map (\<lambda>(nm, angle, lighting).
                          GenerateVariantImage
                            (map_of (stepVisuals s) (stepNumber (last (steps p))))
                            angle lighting (styleAnalysis p))
                     variantConfigs\<rparr>))"

definition variantResults ::
    "((string \<times> string \<times> string) \<Rightarrow> string outcome) \<Rightarrow> (string \<times> string) option list" where
  "variantResults gw =
     map (\<lambda>conf. case gw conf of Inr url \<Rightarrow> Some (fst conf, url) | Inl e \<Rightarrow> None)
       variantConfigs"

definition newVariants :: "(string \<times> string) option list \<Rightarrow> (string \<times> string) list" where
  "newVariants results =
     fold (\<lambda>res acc. case res of Some (nm, url) \<Rightarrow> AList.update nm url acc | None \<Rightarrow> acc)
       results []"

definition handleGenerateVariants_settle ::
    "((string \<times> string \<times> string) \<Rightarrow> string outcome) \<Rightarrow> app_variants \<Rightarrow> app_variants" where
  "handleGenerateVariants_settle gw s =
     s\<lparr>variants := newVariants (variantResults gw), isVariantsLoading := False\<rparr>"

subsection \<open>One evaluation of the effect\<close>

definition runEffect_variants :: "app_variants \<Rightarrow> app_variants" where
  "runEffect_variants s =
     (case orchestrator_variants s of
        NoAction \<Rightarrow> s
      | GenerateVisualForStep step \<Rightarrow> generateVisualForStep_variants_start step s
      | GenerateVariants \<Rightarrow> handleGenerateVariants_start s
      | Throws \<Rightarrow> s)"

definition runEffect_night :: "app_night \<Rightarrow> app_night" where
  "runEffect_night s =
     (case orchestrator_night s of
        GenerateVisualForStep step \<Rightarrow> generateVisualForStep_night_start step s
      | _ \<Rightarrow> s)"

fun isStepImageCall :: "gateway_call \<Rightarrow> bool" where
  "isStepImageCall (GenerateStepImage n prompt ctx prev) = True"
| "isStepImageCall (RegenerateStepImage n prompt ctx lighting cameraAngle) = True"
| "isStepImageCall _ = False"

definition stepImageCalls :: "'a app_scheme \<Rightarrow> nat" where
  "stepImageCalls s = length (filter isStepImageCall (gatewayLog s))"

section \<open>On-demand controllers\<close>

text \<open>
  \<^verbatim>\<open>
  const handleMaterialClick = async (item: Material) => {
    setSelectedMaterial(item);
    if (materialImages[item.name]) { return; }     // Check cache first
    setGeneratingMaterialImage(true);
    try {
      const isTool = item.category === 'tool';
      const style = isTool ? "Professional Hardware Equipment"
                           : (plan?.styleAnalysis || "Modern Home Decor");
      const url = await generateProductImage(item.name, style);
      setMaterialImages(prev => ({ ...prev, [item.name]: url }));
    } catch (e) { console.error(...); } finally { setGeneratingMaterialImage(false); }
  };
  \<close>
  \<^verbatim>\<open>materialImages\<close> is a plain object: reading a name it does not hold as its own
  gives what every object inherits under that name, a function or an object, which is
  truthy. \<open>materialImages s\<close> holds the own entries.
\<close>

definition objectPrototypeNames :: "string list" where
  "objectPrototypeNames =
     [''constructor'', ''hasOwnProperty'', ''isPrototypeOf'', ''propertyIsEnumerable'',
      ''toLocaleString'', ''toString'', ''valueOf'', ''__proto__'', ''__defineGetter__'',
      ''__defineSetter__'', ''__lookupGetter__'', ''__lookupSetter__'']"

definition materialImageTruthy :: "'a app_scheme \<Rightarrow> string \<Rightarrow> bool" where
  "materialImageTruthy s nm =
     (case materialImages s nm of
        Some url \<Rightarrow> url \<noteq> []
      | None \<Rightarrow> nm \<in> set objectPrototypeNames)"

definition productStyle :: "'a app_scheme \<Rightarrow> Material \<Rightarrow> string" where
  "productStyle s item =
     (if category item = tool then ''Professional Hardware Equipment''
      else (case plan s of
              None \<Rightarrow> ''Modern Home Decor''
            | Some p \<Rightarrow> if styleAnalysis p = [] then ''Modern Home Decor'' else styleAnalysis p))"

definition handleMaterialClick_start :: "Material \<Rightarrow> 'a app_scheme \<Rightarrow> 'a app_scheme" where
  "handleMaterialClick_start item s =
     (if materialImageTruthy s (name item) then s\<lparr>selectedMaterial := Some item\<rparr>
      else s\<lparr>selectedMaterial := Some item, generatingMaterialImage := True,
             gatewayLog := gatewayLog s @ [GenerateProductImage (name item) (productStyle s item)]\<rparr>)"

definition handleMaterialClick_settle ::
    "Material \<Rightarrow> string outcome \<Rightarrow> 'a app_scheme \<Rightarrow> 'a app_scheme" where
  "handleMaterialClick_settle item res s =
     (case res of
        Inr url \<Rightarrow> s\<lparr>materialImages := (materialImages s)(name item \<mapsto> url)\<rparr>
      | Inl e \<Rightarrow> s)\<lparr>generatingMaterialImage := False\<rparr>"

text \<open>
  First build (the function has no caller in the component):
  \<^verbatim>\<open>
  const handleGenerateVideo = async () => {
    if (!plan || isVideoLoading || videoUrl) return;
    const lastStepIdx = plan.steps[plan.steps.length - 1].stepNumber;
    if (!stepVisuals[lastStepIdx]) { alert(...); return; }
    setIsVideoLoading(true);
    ... key selection, failures logged ...
    try {
      const bestImage = stepVisuals[lastStepIdx];
      if (!bestImage) { throw new Error(...); }
      const url = await generateRoomTourVideo(plan.styleAnalysis, bestImage);
      setVideoUrl(url);
    } catch (e) { console.error(e); } finally { setIsVideoLoading(false); }
  };
  \<close>
  On a plan without steps the function throws before it changes anything.
\<close>

definition handleGenerateVideo_start :: "app_variants \<Rightarrow> app_variants" where
  "handleGenerateVideo_start s =
     (case plan s of
        None \<Rightarrow> s
      | Some p \<Rightarrow>
          if isVideoLoading s \<or> truthy (videoUrl s) then s
          else (case steps p of
                  [] \<Rightarrow> s
                | _ \<Rightarrow>
                    (case map_of (stepVisuals s) (stepNumber (last (steps p))) of
                       None \<Rightarrow> s
                     | Some bestImage \<Rightarrow>
                         if bestImage = [] then s
                         else s\<lparr>isVideoLoading := True,
                                gatewayLog := gatewayLog s @
                                  [GenerateRoomTourVideo (styleAnalysis p) bestImage]\<rparr>)))"

definition handleGenerateVideo_settle :: "string outcome \<Rightarrow> app_variants \<Rightarrow> app_variants" where
  "handleGenerateVideo_settle res s =
     (case res of Inr url \<Rightarrow> s\<lparr>videoUrl := Some url\<rparr> | Inl e \<Rightarrow> s)\<lparr>isVideoLoading := False\<rparr>"

text \<open>
  Second build:
  \<^verbatim>\<open>
  const handleGenerateNightTour = async () => {
    if (!plan || isNightVideoLoading || nightVideoUrl) return;
    const lastStepIdx = plan.steps[plan.steps.length - 1].stepNumber;
    const bestImage = stepVisuals[lastStepIdx];
    if (!bestImage) return;
    setIsNightVideoLoading(true);
    ... key selection, failures logged ...
    try {
      const url = await generateNightTourVideo(bestImage);
      setNightVideoUrl(url);
    } catch (e) { console.error(e); alert(...); } finally { setIsNightVideoLoading(false); }
  };
  \<close>
\<close>

definition handleGenerateNightTour_start :: "app_night \<Rightarrow> app_night" where
  "handleGenerateNightTour_start s =
     (case plan s of
        None \<Rightarrow> s
      | Some p \<Rightarrow>
          if isNightVideoLoading s \<or> truthy (nightVideoUrl s) then s
          else (case steps p of
                  [] \<Rightarrow> s
                | _ \<Rightarrow>
                    (case map_of (stepVisuals s) (stepNumber (last (steps p))) of
                       None \<Rightarrow> s
                     | Some bestImage \<Rightarrow>
                         if bestImage = [] then s
                         else s\<lparr>isNightVideoLoading := True,
                                gatewayLog := gatewayLog s @ [GenerateNightTourVideo bestImage]\<rparr>)))"

definition handleGenerateNightTour_settle :: "string outcome \<Rightarrow> app_night \<Rightarrow> app_night" where
  "handleGenerateNightTour_settle res s =
     (case res of Inr url \<Rightarrow> s\<lparr>nightVideoUrl := Some url\<rparr> | Inl e \<Rightarrow> s)
       \<lparr>isNightVideoLoading := False\<rparr>"

text \<open>
  Second build:
  \<^verbatim>\<open>
  const handleGenerateSummary = async () => {
    if (!plan) return;
    setIsSummaryLoading(true);
    try {
      const buffer = await generateProjectSummaryAudio(plan);
      setSummaryAudioBuffer(buffer);
      setShowSummaryPlayer(true);
    } catch (e) { console.error(...); alert(...); } finally { setIsSummaryLoading(false); }
  };
  \<close>
  The button that calls it is rendered with \<^verbatim>\<open>disabled={isSummaryLoading}\<close>; a click is
  \<open>playSummary_onClick\<close>.
\<close>

definition handleGenerateSummary_start :: "app_night \<Rightarrow> app_night" where
  "handleGenerateSummary_start s =
     (case plan s of
        None \<Rightarrow> s
      | Some p \<Rightarrow>
          s\<lparr>isSummaryLoading := True,
            gatewayLog := gatewayLog s @ [GenerateProjectSummaryAudio p]\<rparr>)"

definition handleGenerateSummary_settle :: "string outcome \<Rightarrow> app_night \<Rightarrow> app_night" where
  "handleGenerateSummary_settle res s =
     (case res of
        Inr buffer \<Rightarrow> s\<lparr>summaryAudioBuffer := Some buffer, showSummaryPlayer := True\<rparr>
      | Inl e \<Rightarrow> s)\<lparr>isSummaryLoading := False\<rparr>"

definition playSummary_onClick :: "app_night \<Rightarrow> app_night" where
  "playSummary_onClick s = (if isSummaryLoading s then s else handleGenerateSummary_start s)"

section \<open>Plan editing and the checklist\<close>

text \<open>
  The checklist key is the template string \<^verbatim>\<open>`${stepIndex}-${subIdx}`\<close>; both
  numbers are array indices, printed in decimal.
\<close>

definition digit :: "nat \<Rightarrow> char" where
  "digit d = ''0123456789'' ! d"

fun toString :: "nat \<Rightarrow> string" where
  "toString n = (if n < 10 then [digit n] else toString (n div 10) @ [digit (n mod 10)])"

declare toString.simps [simp del]

definition substepKey :: "nat \<Rightarrow> nat \<Rightarrow> string" where
  "substepKey stepIndex subIdx = toString stepIndex @ ''-'' @ toString subIdx"

text \<open>
  \<^verbatim>\<open>!!completedSubsteps[key]\<close>, the state of the rendered checkbox.
\<close>

definition checked :: "'a app_scheme \<Rightarrow> nat \<Rightarrow> nat \<Rightarrow> bool" where
  "checked s stepIndex subIdx = (completedSubsteps s (substepKey stepIndex subIdx) = Some True)"

text \<open>
  \<^verbatim>\<open>
  const toggleSubstep = (stepIndex: number, subIdx: number) => {
    const key = `${stepIndex}-${subIdx}`;
    setCompletedSubsteps(prev => ({ ...prev, [key]: !prev[key] }));
  };
  \<close>
\<close>

definition toggleSubstep :: "nat \<Rightarrow> nat \<Rightarrow> 'a app_scheme \<Rightarrow> 'a app_scheme" where
  "toggleSubstep stepIndex subIdx s =
     s\<lparr>completedSubsteps :=
         (completedSubsteps s)(substepKey stepIndex subIdx \<mapsto>
            \<not> (completedSubsteps s (substepKey stepIndex subIdx) = Some True))\<rparr>"

text \<open>
  \<^verbatim>\<open>
  const deleteSubstep = (sIdx: number, subIdx: number) => {
    if (!plan) return;
    const newPlan = { ...plan };
    newPlan.steps[sIdx].substeps.splice(subIdx, 1);
    setPlan(newPlan);
  };
  \<close>
  \<^verbatim>\<open>splice(subIdx, 1)\<close> removes the entry at \<^verbatim>\<open>subIdx\<close> and nothing at or past the
  end of the array; \<^verbatim>\<open>plan.steps[sIdx]\<close> past the end is \<^verbatim>\<open>undefined\<close>, whose
  \<^verbatim>\<open>substeps\<close> cannot be read.
\<close>

definition splice1 :: "nat \<Rightarrow> 'a list \<Rightarrow> 'a list" where
  "splice1 i xs = take i xs @ drop (Suc i) xs"

definition setSubsteps :: "nat \<Rightarrow> string list \<Rightarrow> DIYPlan \<Rightarrow> DIYPlan" where
  "setSubsteps sIdx subs p = p\<lparr>steps := (steps p)[sIdx := (steps p ! sIdx)\<lparr>substeps := subs\<rparr>]\<rparr>"

definition deleteSubstep :: "nat \<Rightarrow> nat \<Rightarrow> 'a app_scheme \<Rightarrow> js_error + 'a app_scheme" where
  "deleteSubstep sIdx subIdx s =
     (case plan s of
        None \<Rightarrow> Inr s
      | Some p \<Rightarrow>
          if length (steps p) \<le> sIdx then Inl TypeError
          else Inr (s\<lparr>plan :=
                 Some (setSubsteps sIdx (splice1 subIdx (substeps (steps p ! sIdx))) p)\<rparr>))"

text \<open>
  \<^verbatim>\<open>
  const moveSubstep = (sIdx: number, subIdx: number, direction: -1 | 1) => {
    if (!plan) return;
    const substeps = plan.steps[sIdx].substeps;
    const newIndex = subIdx + direction;
    if (newIndex < 0 || newIndex >= substeps.length) return;
    const newPlan = { ...plan };
    const temp = newPlan.steps[sIdx].substeps[subIdx];
    newPlan.steps[sIdx].substeps[subIdx] = newPlan.steps[sIdx].substeps[newIndex];
    newPlan.steps[sIdx].substeps[newIndex] = temp;
    setPlan(newPlan);
    // Swap completion state as well to follow the item
    const currentKey = `${sIdx}-${subIdx}`;
    const newKey = `${sIdx}-${newIndex}`;
    setCompletedSubsteps(prev => {
      const next = { ...prev };
      const val1 = next[currentKey];
      const val2 = next[newKey];
      next[currentKey] = val2;
      next[newKey] = val1;
      return next;
    });
  };
  \<close>
  With \<^verbatim>\<open>subIdx\<close> past the end and \<^verbatim>\<open>newIndex\<close> inside, the writes would store
  \<^verbatim>\<open>undefined\<close> in the array (\<open>ArrayHole\<close>).
\<close>

definition swapCompletion ::
    "string \<Rightarrow> string \<Rightarrow> (string \<Rightarrow> bool option) \<Rightarrow> (string \<Rightarrow> bool option)" where
  "swapCompletion currentKey newKey prev =
     (let val1 = prev currentKey; val2 = prev newKey
      in (prev(currentKey := val2))(newKey := val1))"

definition moveSubstep :: "nat \<Rightarrow> nat \<Rightarrow> int \<Rightarrow> 'a app_scheme \<Rightarrow> js_error + 'a app_scheme" where
  "moveSubstep sIdx subIdx direction s =
     (case plan s of
        None \<Rightarrow> Inr s
      | Some p \<Rightarrow>
          if length (steps p) \<le> sIdx then Inl TypeError
          else
            (let subs = substeps (steps p ! sIdx); newIndex = int subIdx + direction
             in if newIndex < 0 \<or> newIndex \<ge> int (length subs) then Inr s
                else if length subs \<le> subIdx then Inl ArrayHole
                else
                  Inr (s\<lparr>plan :=
                           Some (setSubsteps sIdx
                                   (subs[subIdx := subs ! nat newIndex, nat newIndex := subs ! subIdx])
                                   p),
                         completedSubsteps :=
                           swapCompletion (substepKey sIdx subIdx) (substepKey sIdx (nat newIndex))
                             (completedSubsteps s)\<rparr>)))"

section \<open>Slideshow playback (SummaryPlayer.tsx)\<close>

text \<open>
  A JavaScript number is an IEEE 754 double, and each arithmetic operation gives the
  double nearest to the exact result, ties to the even significand. \<open>fl\<close> is that
  rounding on the reals: \<open>exponent x\<close> is the integer \<open>e\<close> with \<open>2^e \<le> x < 2^(e+1)\<close>, the
  doubles of that range are the multiples of \<open>2^(e-52)\<close>, and below \<open>2^-1022\<close> they are
  the multiples of \<open>2^-1074\<close>. Overflow to infinity is not modelled; the values rounded
  here stay below the number of images.
\<close>

definition exponent :: "real \<Rightarrow> int" where
  "exponent x = (if 1 \<le> x then bitlen \<lfloor>x\<rfloor> - 1 else - bitlen (\<lceil>1 / x\<rceil> - 1))"

definition roundHalfEven :: "real \<Rightarrow> int" where
  "roundHalfEven y =
     (let f = \<lfloor>y\<rfloor>; r = y - of_int f
      in if r < 1 / 2 then f else if 1 / 2 < r then f + 1 else if even f then f else f + 1)"

definition fl :: "real \<Rightarrow> real" where
  "fl x =
     (if x = 0 then 0
      else let q = 2 powi (max (exponent \<bar>x\<bar>) (- 1022) - 52)
           in sgn x * of_int (roundHalfEven (\<bar>x\<bar> / q)) * q)"

text \<open>
  One frame of the animation loop, given the elapsed audio time, the audio duration (two
  doubles, the elapsed time not negative) and the number of images: the image index it
  displays and whether it requests another frame.
  \<^verbatim>\<open>
  const elapsed = audioContextRef.current.currentTime - startTimeRef.current;
  if (elapsed < durationRef.current) {
    const progress = elapsed / durationRef.current;
    const index = Math.min(Math.floor(progress * images.length), images.length - 1);
    setCurrentImageIndex(index);
    rafRef.current = requestAnimationFrame(animate);
  } else {
    setCurrentImageIndex(images.length - 1);
  }
  \<close>
\<close>

definition animate :: "real \<Rightarrow> real \<Rightarrow> nat \<Rightarrow> int \<times> bool" where
  "animate elapsed duration imagesLength =
     (if elapsed < duration
      then (min \<lfloor>fl (fl (elapsed / duration) * real imagesLength)\<rfloor> (int imagesLength - 1), True)
      else (int imagesLength - 1, False))"

section \<open>The other events of the first build\<close>

text \<open>
  \<^verbatim>\<open>
  const handleFileSelect = async (file: File, type: 'inspiration' | 'current') => {
    try {
      const base64 = await fileToGenerativePart(file);
      const input: ImageInput = { file, previewUrl: URL.createObjectURL(file), base64 };
      if (type === 'inspiration') setInspirationImage(input);
      else setCurrentImage(input);
    } catch (e) { console.error(e); alert("Error reading file"); }
  };
  \<close>
  and the \<^verbatim>\<open>onClear\<close> of either upload field.
\<close>

datatype upload = inspiration | current

definition handleFileSelect_settle :: "upload \<Rightarrow> string outcome \<Rightarrow> 'a app_scheme \<Rightarrow> 'a app_scheme" where
  "handleFileSelect_settle type res s =
     (case res of
        Inr base64 \<Rightarrow>
          (case type of
             inspiration \<Rightarrow> s\<lparr>inspirationImage := Some base64\<rparr>
           | current \<Rightarrow> s\<lparr>currentImage := Some base64\<rparr>)
      | Inl e \<Rightarrow> s)"

definition onClear :: "upload \<Rightarrow> 'a app_scheme \<Rightarrow> 'a app_scheme" where
  "onClear type s =
     (case type of
        inspiration \<Rightarrow> s\<lparr>inspirationImage := None\<rparr>
      | current \<Rightarrow> s\<lparr>currentImage := None\<rparr>)"

text \<open>
  \<^verbatim>\<open>
  const handleSubmit = async () => {
    if (!inspirationImage || !currentImage) { alert(...); return; }
    setAppState(AppState.ANALYZING);
    setErrorMsg("");
    setStepVisuals({}); setCompletedSubsteps({}); setMaterialImages({});
    setVideoUrl(null); setVariants({}); setGeneratingStepIndex(null);
    try {
      const generatedPlan = await generateDIYPlan(inspirationImage.base64,
        currentImage.base64, dimensions, styleAdjustments);
      setPlan(generatedPlan);
      setAppState(AppState.RESULT);
    } catch (e) { console.error(e); setErrorMsg(...); setAppState(AppState.ERROR); }
  };
  \<close>
\<close>

definition handleSubmit_variants_start :: "app_variants \<Rightarrow> app_variants" where
  "handleSubmit_variants_start s =
     (case (inspirationImage s, currentImage s) of
        (Some insp, Some cur) \<Rightarrow>
          s\<lparr>appState := ANALYZING, stepVisuals := [], completedSubsteps := (\<lambda>k. None),
            materialImages := (\<lambda>k. None), videoUrl := None, variants := [],
            generatingStepIndex := None,
            gatewayLog := gatewayLog s @ [GenerateDIYPlan insp cur]\<rparr>
      | _ \<Rightarrow> s)"

definition handleSubmit_settle :: "DIYPlan outcome \<Rightarrow> 'a app_scheme \<Rightarrow> 'a app_scheme" where
  "handleSubmit_settle res s =
     (case res of
        Inr generatedPlan \<Rightarrow> s\<lparr>plan := Some generatedPlan, appState := RESULT\<rparr>
      | Inl e \<Rightarrow> s\<lparr>appState := ERROR\<rparr>)"

text \<open>
  \<^verbatim>\<open>
  const reset = () => {
    setAppState(AppState.INPUT); setPlan(null);
    setInspirationImage(null); setCurrentImage(null);
    setDimensions(""); setStyleAdjustments("");
    setStepVisuals({}); setCompletedSubsteps({}); setMaterialImages({});
    setVideoUrl(null); setSelectedMaterial(null); setGeneratingStepIndex(null);
    setIsVideoLoading(false); setVariants({}); setIsVariantsLoading(false);
  };
  \<close>
\<close>

definition reset_variants :: "app_variants \<Rightarrow> app_variants" where
  "reset_variants s =
     s\<lparr>appState := INPUT, plan := None, inspirationImage := None, currentImage := None,
       stepVisuals := [], completedSubsteps := (\<lambda>k. None), materialImages := (\<lambda>k. None),
       videoUrl := None, selectedMaterial := None, generatingStepIndex := None,
       isVideoLoading := False, variants := [], isVariantsLoading := False\<rparr>"

definition closeMaterialModal :: "'a app_scheme \<Rightarrow> 'a app_scheme" where
  "closeMaterialModal s = s\<lparr>selectedMaterial := None\<rparr>"

text \<open>
  \<^verbatim>\<open>
  const saveSubstep = () => {
    if (!plan || !editingSubstep) return;
    const { sIdx, subIdx } = editingSubstep;
    const newPlan = { ...plan };
    newPlan.steps[sIdx].substeps[subIdx] = editValue;
    setPlan(newPlan);
    setEditingSubstep(null);
  };
  const addSubstep = (sIdx: number) => {
    if (!plan) return;
    const newPlan = { ...plan };
    newPlan.steps[sIdx].substeps.push("New step");
    setPlan(newPlan);
    ... the editor opens on the new entry ...
  };
  \<close>
  The position and the text of the editor are arguments here. Writing one past the end
  of an array appends; writing further leaves a hole.
\<close>

definition saveSubstep :: "nat \<Rightarrow> nat \<Rightarrow> string \<Rightarrow> 'a app_scheme \<Rightarrow> js_error + 'a app_scheme" where
  "saveSubstep sIdx subIdx editValue s =
     (case plan s of
        None \<Rightarrow> Inr s
      | Some p \<Rightarrow>
          if length (steps p) \<le> sIdx then Inl TypeError
          else
            (let subs = substeps (steps p ! sIdx)
             in if subIdx < length subs
                then Inr (s\<lparr>plan := Some (setSubsteps sIdx (subs[subIdx := editValue]) p)\<rparr>)
                else if subIdx = length subs
                then Inr (s\<lparr>plan := Some (setSubsteps sIdx (subs @ [editValue]) p)\<rparr>)
                else Inl ArrayHole))"

definition addSubstep :: "nat \<Rightarrow> 'a app_scheme \<Rightarrow> js_error + 'a app_scheme" where
  "addSubstep sIdx s =
     (case plan s of
        None \<Rightarrow> Inr s
      | Some p \<Rightarrow>
          if length (steps p) \<le> sIdx then Inl TypeError
          else Inr (s\<lparr>plan :=
                 Some (setSubsteps sIdx (substeps (steps p ! sIdx) @ [''New step'']) p)\<rparr>))"

text \<open>
  The state of the first build when the component mounts (the initial values of its
  \<^verbatim>\<open>useState\<close> calls), and the states its events lead to. handleGenerateVideo is not
  among the events: nothing in the component calls it.
\<close>

definition mountState_variants :: app_variants where
  "mountState_variants =
     \<lparr>appState = INPUT, plan = None, inspirationImage = None, currentImage = None,
      stepVisuals = [], generatingStepIndex = None, completedSubsteps = (\<lambda>k. None),
      selectedMaterial = None, materialImages = (\<lambda>k. None), generatingMaterialImage = False,
      gatewayLog = [], stepImagesInFlight = 0, videoUrl = None, isVideoLoading = False,
      variants = [], isVariantsLoading = False\<rparr>"

inductive reachable_variants :: "app_variants \<Rightarrow> bool" where
  mount: "reachable_variants mountState_variants"
| fileSelect: "reachable_variants s \<Longrightarrow> reachable_variants (handleFileSelect_settle type res s)"
| clear: "reachable_variants s \<Longrightarrow> reachable_variants (onClear type s)"
| submit: "reachable_variants s \<Longrightarrow> reachable_variants (handleSubmit_variants_start s)"
| submitted: "reachable_variants s \<Longrightarrow> reachable_variants (handleSubmit_settle planRes s)"
| reset: "reachable_variants s \<Longrightarrow> reachable_variants (reset_variants s)"
| effect: "reachable_variants s \<Longrightarrow> reachable_variants (runEffect_variants s)"
| stepSettled:
    "reachable_variants s \<Longrightarrow> reachable_variants (generateVisualForStep_variants_settle step res s)"
| variantsSettled:
    "reachable_variants s \<Longrightarrow> reachable_variants (handleGenerateVariants_settle gw s)"
| visualizerClick:
    "reachable_variants s \<Longrightarrow> reachable_variants (stepVisualizer_onClick idx lighting cameraAngle s)"
| visualizerSettled:
    "reachable_variants s \<Longrightarrow> reachable_variants (handleGenerate_variants_settle step res s)"
| toggle: "reachable_variants s \<Longrightarrow> reachable_variants (toggleSubstep stepIndex subIdx s)"
| save:
    "reachable_variants s \<Longrightarrow> saveSubstep sIdx subIdx editValue s = Inr s' \<Longrightarrow> reachable_variants s'"
| delete: "reachable_variants s \<Longrightarrow> deleteSubstep sIdx subIdx s = Inr s' \<Longrightarrow> reachable_variants s'"
| move:
    "reachable_variants s \<Longrightarrow> moveSubstep sIdx subIdx direction s = Inr s' \<Longrightarrow> reachable_variants s'"
| add: "reachable_variants s \<Longrightarrow> addSubstep sIdx s = Inr s' \<Longrightarrow> reachable_variants s'"
| materialClick: "reachable_variants s \<Longrightarrow> reachable_variants (handleMaterialClick_start item s)"
| materialSettled:
    "reachable_variants s \<Longrightarrow> reachable_variants (handleMaterialClick_settle item res s)"
| closeModal: "reachable_variants s \<Longrightarrow> reachable_variants (closeMaterialModal s)"

section \<open>Concrete sessions\<close>

text \<open>
  A three-step plan and the state of either build right after the plan has arrived
  (\<^verbatim>\<open>handleSubmit\<close> has reset the stores and set \<^verbatim>\<open>AppState.RESULT\<close>).
\<close>

definition exampleStep :: "int \<Rightarrow> Step" where
  "exampleStep n =
     \<lparr>stepNumber = n, title = ''Step'', instruction = ''Do it'', substeps = [''A'', ''B'', ''C''],
      visualizationPrompt = ''Show it''\<rparr>"

definition examplePlan :: DIYPlan where
  "examplePlan =
     \<lparr>projectTitle = ''Room'', styleAnalysis = ''Nordic'',
      materials = [\<lparr>name = ''Paint'', category = consumable\<rparr>],
      steps = [exampleStep 1, exampleStep 2, exampleStep 3]\<rparr>"

definition resultState_variants :: app_variants where
  "resultState_variants =
     \<lparr>appState = RESULT, plan = Some examplePlan, inspirationImage = Some ''style'',
      currentImage = Some ''room'',
      stepVisuals = [], generatingStepIndex = None, completedSubsteps = (\<lambda>k. None),
      selectedMaterial = None, materialImages = (\<lambda>k. None), generatingMaterialImage = False,
      gatewayLog = [], stepImagesInFlight = 0, videoUrl = None, isVideoLoading = False,
      variants = [], isVariantsLoading = False\<rparr>"

definition resultState_night :: app_night where
  "resultState_night =
     \<lparr>appState = RESULT, plan = Some examplePlan, inspirationImage = Some ''style'',
      currentImage = Some ''room'',
      stepVisuals = [], generatingStepIndex = None, completedSubsteps = (\<lambda>k. None),
      selectedMaterial = None, materialImages = (\<lambda>k. None), generatingMaterialImage = False,
      gatewayLog = [], stepImagesInFlight = 0, summaryAudioBuffer = None,
      isSummaryLoading = False,
      showSummaryPlayer = False, nightVideoUrl = None, isNightVideoLoading = False\<rparr>"

text \<open>
  The session of the scenario: the effect starts step 1, its request succeeds, the
  effect starts step 2, and that request fails.
\<close>

definition stepTwoFailed_variants :: app_variants where
  "stepTwoFailed_variants =
     generateVisualForStep_variants_settle (exampleStep 2) (Inl (GenerationError ''No image generated''))
       (runEffect_variants
          (generateVisualForStep_variants_settle (exampleStep 1) (Inr ''img1'')
             (runEffect_variants resultState_variants)))"

definition stepTwoFailed_night :: app_night where
  "stepTwoFailed_night =
     generateVisualForStep_night_settle (exampleStep 2) (Inl (GenerationError ''No image generated''))
       (runEffect_night
          (generateVisualForStep_night_settle (exampleStep 1) (Inr ''img1'')
             (runEffect_night resultState_night)))"

text \<open>
  A gateway whose request for the second configuration fails, and the state in which
  every step of the three-step plan has its visual.
\<close>

definition exampleVariantGateway :: "(string \<times> string \<times> string) \<Rightarrow> string outcome" where
  "exampleVariantGateway conf =
     (if fst conf = ''Evening Ambience'' then Inl (GenerationError ''Variant generation failed'')
      else Inr (''data:'' @ fst conf))"

definition allVisualized_variants :: app_variants where
  "allVisualized_variants =
     resultState_variants\<lparr>stepVisuals := [(1, ''img1''), (2, ''img2''), (3, ''img3'')]\<rparr>"

definition allVisualized_night :: app_night where
  "allVisualized_night =
     resultState_night\<lparr>stepVisuals := [(1, ''img1''), (2, ''img2''), (3, ''img3'')]\<rparr>"

definition paint :: Material where
  "paint = \<lparr>name = ''Paint'', category = consumable\<rparr>"

text \<open>
  Two sessions with a repeated request. In the first the summary is requested, its
  audio arrives, and the button is clicked again. In the second a material is clicked,
  its modal is closed, and it is clicked again before its image has arrived.
\<close>

definition summaryPlayedTwice :: app_night where
  "summaryPlayedTwice =
     playSummary_onClick
       (handleGenerateSummary_settle (Inr ''pcm'') (playSummary_onClick allVisualized_night))"

definition materialClickedTwice :: app_night where
  "materialClickedTwice =
     handleMaterialClick_start paint
       (closeMaterialModal (handleMaterialClick_start paint allVisualized_night))"

text \<open>
  Reading a decimal string back, to show that equal keys come from equal indices.
\<close>

definition digitValue :: "char \<Rightarrow> nat" where
  "digitValue c = length (takeWhile (\<lambda>d. d \<noteq> c) ''0123456789'')"

definition parseNat :: "string \<Rightarrow> nat" where
  "parseNat cs = foldl (\<lambda>acc c. 10 * acc + digitValue c) 0 cs"

text \<open>
  The checklist of the spec's example: step 0 has substeps A, B, C and B is ticked.
\<close>

definition checklistExample :: app_variants where
  "checklistExample =
     resultState_variants
       \<lparr>completedSubsteps := [''0-0'' \<mapsto> False, ''0-1'' \<mapsto> True, ''0-2'' \<mapsto> False]\<rparr>"

text \<open>
  A checklist in which only the first substep of step 0 is ticked.
\<close>

definition firstTicked :: app_variants where
  "firstTicked = toggleSubstep 0 0 resultState_variants"

text \<open>
  The session that leads to a plan: both images are uploaded, the form is submitted and
  the plan arrives.
\<close>

definition submitted_variants :: app_variants where
  "submitted_variants =
     handleSubmit_settle (Inr examplePlan)
       (handleSubmit_variants_start
          (handleFileSelect_settle inspiration (Inr ''style'')
             (handleFileSelect_settle current (Inr ''room'') mountState_variants)))"

text \<open>
  Two sessions in which a second step-image request is sent while one is outstanding.
  In the first, step 1 has its image, the effect has started step 2, and the Regenerate
  button of step 1 is clicked. In the second, the effect has started step 1, the page is
  reset, the images are uploaded and the form is submitted again, the plan arrives, and
  the effect starts step 1 of the new plan.
\<close>

definition regenerateDuringAutomatic :: app_variants where
  "regenerateDuringAutomatic =
     stepVisualizer_onClick 0 ''Match Reference'' ''Match Reference''
       (runEffect_variants
          (generateVisualForStep_variants_settle (exampleStep 1) (Inr ''img1'')
             (runEffect_variants submitted_variants)))"

definition resetDuringAutomatic :: app_variants where
  "resetDuringAutomatic =
     runEffect_variants
       (handleSubmit_settle (Inr examplePlan)
          (handleSubmit_variants_start
             (handleFileSelect_settle inspiration (Inr ''style'')
                (handleFileSelect_settle current (Inr ''room'')
                   (reset_variants (runEffect_variants submitted_variants))))))"

section \<open>Downstream invalidation of step visuals\<close>

lemma fold_delete_filter:
  "fold (\<lambda>key newState.
           let keyNum = f key in if keyNum > index then AList.delete keyNum newState else newState)
     ks al
     = filter (\<lambda>p. \<not> (fst p \<in> f ` set ks \<and> fst p > index)) al"
proof (induction ks arbitrary: al)
  case Nil
  show ?case by simp
next
  case (Cons k ks)
  show ?case
  proof (cases "index < f k")
    case True
    have "filter (\<lambda>p. \<not> (fst p \<in> f ` set ks \<and> index < fst p)) (AList.delete (f k) al)
      = filter (\<lambda>p. \<not> (fst p \<in> f ` set (k # ks) \<and> index < fst p)) al"
      using True by (induction al) auto
    with True show ?thesis by (simp add: Cons.IH [of "AList.delete (f k) al"])
  next
    case False
    have "filter (\<lambda>p. \<not> (fst p \<in> f ` set ks \<and> index < fst p)) al
      = filter (\<lambda>p. \<not> (fst p \<in> f ` set (k # ks) \<and> index < fst p)) al"
      using False by (induction al) auto
    with False show ?thesis by (simp add: Cons.IH [of al])
  qed
qed

text \<open>
  A key above \<open>index\<close> that the loop deletes is a key of \<open>prev\<close> in plain decimal: such a
  key is read back as itself, and what is read from a key in exponent notation is a
  digit, which is deleted at its own turn if \<open>prev\<close> has it. So the loop keeps the entries
  of the spread whose key is at most \<open>index\<close> or is printed in exponent notation.
\<close>

lemma stepVisualsLoop_filter:
  assumes lead: "\<And>key. plainDecimal (lead key)"
  shows "stepVisualsLoop lead index imageUrl prev =
     filter (\<lambda>p. \<not> (plainDecimal (fst p) \<and> index < fst p)) (AList.update index imageUrl prev)"
proof -
  have "(fst p \<in> parseInt lead ` set (map fst prev) \<and> index < fst p)
          = (plainDecimal (fst p) \<and> index < fst p)"
    if p: "p \<in> set (AList.update index imageUrl prev)" for p
  proof (cases "index < fst p")
    case False
    then show ?thesis by simp
  next
    case True
    from p have "fst p \<in> fst ` set (AList.update index imageUrl prev)" by (rule imageI)
    with True have mem: "fst p \<in> fst ` set prev" by (auto simp: dom_update)
    show ?thesis
    proof (cases "plainDecimal (fst p)")
      case True
      then have "parseInt lead (fst p) = fst p" by (simp add: parseInt_def)
      with mem have "fst p \<in> parseInt lead ` set (map fst prev)"
        by (metis image_eqI image_set)
      with True \<open>index < fst p\<close> show ?thesis by simp
    next
      case False
      have "plainDecimal (parseInt lead key)" for key
        using lead by (simp add: parseInt_def)
      with False have "fst p \<notin> parseInt lead ` set (map fst prev)" by auto
      with False show ?thesis by simp
    qed
  qed
  then have "filter (\<lambda>p. \<not> (fst p \<in> parseInt lead ` set (map fst prev) \<and> index < fst p))
               (AList.update index imageUrl prev)
     = filter (\<lambda>p. \<not> (plainDecimal (fst p) \<and> index < fst p)) (AList.update index imageUrl prev)"
    by (intro filter_cong) auto
  then show ?thesis
    unfolding stepVisualsLoop_def fold_delete_filter by simp
qed

lemma stepVisualsLoop_lead_irrelevant:
  assumes "\<And>key. plainDecimal (lead key)" and "\<And>key. plainDecimal (lead' key)"
  shows "stepVisualsLoop lead index imageUrl prev = stepVisualsLoop lead' index imageUrl prev"
  by (simp add: stepVisualsLoop_filter assms)

lemma stepVisualsUpdater_filter:
  "stepVisualsUpdater index imageUrl prev =
     filter (\<lambda>p. \<not> (plainDecimal (fst p) \<and> index < fst p)) (AList.update index imageUrl prev)"
  unfolding stepVisualsUpdater_def
  by (rule stepVisualsLoop_filter) (simp add: plainDecimal_def)

lemma stepVisualsUpdater_lookup:
  "map_of (stepVisualsUpdater index imageUrl prev) m =
     (if m = index then Some imageUrl
      else if plainDecimal m \<and> index < m then None else map_of prev m)"
  using map_of_filter [of "\<lambda>k. \<not> (plainDecimal k \<and> index < k)" "AList.update index imageUrl prev"]
  by (simp add: stepVisualsUpdater_filter update_conv' restrict_map_def)

lemma stepVisualsUpdater_keys:
  "fst ` set (stepVisualsUpdater index imageUrl prev) =
     insert index {k \<in> fst ` set prev. \<not> (plainDecimal k \<and> index < k)}"
proof -
  have "fst ` set (filter (\<lambda>p. \<not> (plainDecimal (fst p) \<and> index < fst p)) al)
          = {k \<in> fst ` set al. \<not> (plainDecimal k \<and> index < k)}" for al :: visuals
    by (induction al) auto
  then show ?thesis
    by (auto simp: stepVisualsUpdater_filter dom_update)
qed

lemma stepVisualsUpdater_distinct:
  "distinct (map fst prev) \<Longrightarrow> distinct (map fst (stepVisualsUpdater index imageUrl prev))"
  by (simp add: stepVisualsUpdater_filter distinct_map_filter distinct_update)

lemma stepVisuals_handleStepVisualGenerated_variants:
  "stepVisuals (handleStepVisualGenerated_variants k img s) = stepVisualsUpdater k img (stepVisuals s)"
  by (simp add: handleStepVisualGenerated_variants_def)

lemma stepVisuals_handleStepVisualGenerated_night:
  "stepVisuals (handleStepVisualGenerated_night k img s) = stepVisualsUpdater k img (stepVisuals s)"
  by (simp add: handleStepVisualGenerated_night_def)

text \<open>
  C1, as the claim states it, fails for a stored step number from \<open>10^21\<close> on. With an
  image stored for step \<open>10^21\<close>, writing step 5 leaves that image in the store, above
  key 5: its key is \<^verbatim>\<open>1e+21\<close>, from which \<^verbatim>\<open>parseInt\<close> reads 1.
\<close>

theorem exponent_key_survives_counterexample:
  "(5::int) < 10 ^ 21
   \<and> stepVisuals (handleStepVisualGenerated_variants 5 ''x''
        (resultState_variants\<lparr>stepVisuals := [(10 ^ 21, ''y'')]\<rparr>))
       = [(10 ^ 21, ''y''), (5, ''x'')]
   \<and> map_of (stepVisuals (handleStepVisualGenerated_night 5 ''x''
        (resultState_night\<lparr>stepVisuals := [(10 ^ 21, ''y'')]\<rparr>))) (10 ^ 21) = Some ''y''"
  by (simp add: handleStepVisualGenerated_variants_def handleStepVisualGenerated_night_def
      stepVisualsUpdater_def stepVisualsLoop_def parseInt_def plainDecimal_def)

text \<open>
  C1, amended. In both builds, when every stored step number is below \<open>10^21\<close> in
  absolute value, storing an image for step \<open>k\<close> through handleStepVisualGenerated
  leaves a store that holds the new image at key \<open>k\<close>, has no key above \<open>k\<close> (whatever
  was stored above \<open>k\<close> is gone), and reads as before at every key below \<open>k\<close>; with \<open>k\<close>
  below \<open>10^21\<close> as well, so is every step number of the new store. A successful
  automatic attempt for a step stores its image in this way, as a manual generation
  does.
\<close>

theorem handleStepVisualGenerated_downstream_invalidation:
  fixes k :: int and img :: string and v :: app_variants and n :: app_night
  defines "v' \<equiv> stepVisuals (handleStepVisualGenerated_variants k img v)"
      and "n' \<equiv> stepVisuals (handleStepVisualGenerated_night k img n)"
  assumes v: "\<forall>key \<in> fst ` set (stepVisuals v). plainDecimal key"
      and n: "\<forall>key \<in> fst ` set (stepVisuals n). plainDecimal key"
  shows "map_of v' k = Some img \<and> map_of n' k = Some img
       \<and> (\<forall>m \<in> fst ` set v'. m \<le> k) \<and> (\<forall>m \<in> fst ` set n'. m \<le> k)
       \<and> (\<forall>m. k < m \<longrightarrow> map_of v' m = None \<and> map_of n' m = None)
       \<and> (\<forall>m. m < k \<longrightarrow> map_of v' m = map_of (stepVisuals v) m
                        \<and> map_of n' m = map_of (stepVisuals n) m)
       \<and> (plainDecimal k \<longrightarrow>
             (\<forall>key \<in> fst ` set v'. plainDecimal key) \<and> (\<forall>key \<in> fst ` set n'. plainDecimal key))
       \<and> (\<forall>st. stepNumber st = k \<longrightarrow>
             stepVisuals (generateVisualForStep_variants_settle st (Inr img) v) = v'
           \<and> stepVisuals (generateVisualForStep_night_settle st (Inr img) n) = n'
           \<and> stepVisuals (handleGenerate_variants_settle st (Inr img) v) = v'
           \<and> stepVisuals (handleGenerate_night_settle st (Inr img) n) = n')"
proof -
  have absent: "map_of al m = None" if "\<forall>key \<in> fst ` set al. plainDecimal key" "\<not> plainDecimal m"
    for al :: visuals and m
    using that by (auto simp: map_of_eq_None_iff)
  have 1: "map_of v' k = Some img \<and> map_of n' k = Some img"
    by (simp add: v'_def n'_def stepVisuals_handleStepVisualGenerated_variants
        stepVisuals_handleStepVisualGenerated_night stepVisualsUpdater_lookup)
  have 2: "(\<forall>m \<in> fst ` set v'. m \<le> k) \<and> (\<forall>m \<in> fst ` set n'. m \<le> k)"
    using v n
    by (auto simp: v'_def n'_def stepVisuals_handleStepVisualGenerated_variants
        stepVisuals_handleStepVisualGenerated_night stepVisualsUpdater_keys)
  have 3: "\<forall>m. k < m \<longrightarrow> map_of v' m = None \<and> map_of n' m = None"
    using absent [OF v] absent [OF n]
    by (auto simp: v'_def n'_def stepVisuals_handleStepVisualGenerated_variants
        stepVisuals_handleStepVisualGenerated_night stepVisualsUpdater_lookup)
  have 4: "\<forall>m. m < k \<longrightarrow> map_of v' m = map_of (stepVisuals v) m
                        \<and> map_of n' m = map_of (stepVisuals n) m"
    by (simp add: v'_def n'_def stepVisuals_handleStepVisualGenerated_variants
        stepVisuals_handleStepVisualGenerated_night stepVisualsUpdater_lookup)
  have 5: "plainDecimal k \<longrightarrow>
             (\<forall>key \<in> fst ` set v'. plainDecimal key) \<and> (\<forall>key \<in> fst ` set n'. plainDecimal key)"
    using v n
    by (auto simp: v'_def n'_def stepVisuals_handleStepVisualGenerated_variants
        stepVisuals_handleStepVisualGenerated_night stepVisualsUpdater_keys)
  have 6: "\<forall>st. stepNumber st = k \<longrightarrow>
             stepVisuals (generateVisualForStep_variants_settle st (Inr img) v) = v'
           \<and> stepVisuals (generateVisualForStep_night_settle st (Inr img) n) = n'
           \<and> stepVisuals (handleGenerate_variants_settle st (Inr img) v) = v'
           \<and> stepVisuals (handleGenerate_night_settle st (Inr img) n) = n'"
    by (simp add: v'_def n'_def generateVisualForStep_variants_settle_def
        generateVisualForStep_night_settle_def handleGenerate_variants_settle_def
        handleGenerate_night_settle_def handleStepVisualGenerated_variants_def
        handleStepVisualGenerated_night_def)
  from 1 2 3 4 5 6 show ?thesis by blast
qed

theorem handleStepVisualGenerated_downstream_invalidation_witness:
  "plainDecimal 1 \<and> plainDecimal 2 \<and> plainDecimal 3
   \<and> map_of (stepVisuals (handleStepVisualGenerated_variants 2 ''new''
      (resultState_variants\<lparr>stepVisuals := [(1, ''a''), (2, ''b''), (3, ''c'')]\<rparr>))) 2 = Some ''new''
   \<and> map_of (stepVisuals (handleStepVisualGenerated_variants 2 ''new''
      (resultState_variants\<lparr>stepVisuals := [(1, ''a''), (2, ''b''), (3, ''c'')]\<rparr>))) 3 = None
   \<and> map_of (stepVisuals (handleStepVisualGenerated_variants 2 ''new''
      (resultState_variants\<lparr>stepVisuals := [(1, ''a''), (2, ''b''), (3, ''c'')]\<rparr>))) 1 = Some ''a''
   \<and> map_of (stepVisuals (handleStepVisualGenerated_night 2 ''new''
      (resultState_night\<lparr>stepVisuals := [(1, ''a''), (2, ''b''), (3, ''c'')]\<rparr>))) 3 = None
   \<and> map_of (stepVisuals (handleStepVisualGenerated_night 2 ''new''
      (resultState_night\<lparr>stepVisuals := [(1, ''a''), (2, ''b''), (3, ''c'')]\<rparr>))) 1 = Some ''a''"
proof -
  let ?v = "resultState_variants\<lparr>stepVisuals := [(1, ''a''), (2, ''b''), (3, ''c'')]\<rparr>"
  let ?n = "resultState_night\<lparr>stepVisuals := [(1, ''a''), (2, ''b''), (3, ''c'')]\<rparr>"
  have v: "\<forall>key \<in> fst ` set (stepVisuals ?v). plainDecimal key"
    by (simp add: plainDecimal_def)
  have n: "\<forall>key \<in> fst ` set (stepVisuals ?n). plainDecimal key"
    by (simp add: plainDecimal_def)
  have old: "map_of (stepVisuals ?v) 1 = Some ''a''" "map_of (stepVisuals ?n) 1 = Some ''a''"
    by simp_all
  note t = handleStepVisualGenerated_downstream_invalidation [OF v n, of 2 "''new''"]
  from t have "map_of (stepVisuals (handleStepVisualGenerated_variants 2 ''new'' ?v)) 2 = Some ''new''"
    by blast
  moreover from t have "map_of (stepVisuals (handleStepVisualGenerated_variants 2 ''new'' ?v)) 3 = None"
    "map_of (stepVisuals (handleStepVisualGenerated_night 2 ''new'' ?n)) 3 = None"
    by simp_all
  moreover from t old have "map_of (stepVisuals (handleStepVisualGenerated_variants 2 ''new'' ?v)) 1 = Some ''a''"
    "map_of (stepVisuals (handleStepVisualGenerated_night 2 ''new'' ?n)) 1 = Some ''a''"
    by simp_all
  moreover have "plainDecimal 1 \<and> plainDecimal 2 \<and> plainDecimal 3"
    by (simp add: plainDecimal_def)
  ultimately show ?thesis by blast
qed

section \<open>Single flight of the automatic sequencing\<close>

lemma orchestrator_variants_in_flight:
  "generatingStepIndex v \<noteq> None \<Longrightarrow> orchestrator_variants v = NoAction"
  by (simp add: orchestrator_variants_def split: option.splits)

lemma orchestrator_night_in_flight:
  "generatingStepIndex n \<noteq> None \<Longrightarrow> orchestrator_night n = NoAction"
  by (simp add: orchestrator_night_def split: option.splits)

lemma stepImageCalls_start_variants:
  "stepImageCalls (generateVisualForStep_variants_start st v) = stepImageCalls v + 1"
  by (simp add: stepImageCalls_def generateVisualForStep_variants_start_def)

lemma stepImageCalls_start_night:
  "stepImageCalls (generateVisualForStep_night_start st n) = stepImageCalls n + 1"
  by (simp add: stepImageCalls_def generateVisualForStep_night_start_def)

lemma in_flight_after_start_variants:
  "generatingStepIndex (generateVisualForStep_variants_start st v) = Some (stepNumber st)"
  by (simp add: generateVisualForStep_variants_start_def)

lemma in_flight_after_start_night:
  "generatingStepIndex (generateVisualForStep_night_start st n) = Some (stepNumber st)"
  by (simp add: generateVisualForStep_night_start_def)

lemma orchestrator_resultState_variants:
  "orchestrator_variants resultState_variants = GenerateVisualForStep (exampleStep 1)"
  by (simp add: orchestrator_variants_def resultState_variants_def nextStep_def examplePlan_def
      truthy_def)

lemma orchestrator_resultState_night:
  "orchestrator_night resultState_night = GenerateVisualForStep (exampleStep 1)"
  by (simp add: orchestrator_night_def resultState_night_def nextStep_def examplePlan_def
      truthy_def)

lemma submitted_variants_eq:
  "submitted_variants = resultState_variants\<lparr>gatewayLog := [GenerateDIYPlan ''style'' ''room'']\<rparr>"
  by (simp add: submitted_variants_def handleSubmit_settle_def handleSubmit_variants_start_def
      handleFileSelect_settle_def mountState_variants_def resultState_variants_def)

lemma submitted_variants_reachable: "reachable_variants submitted_variants"
  unfolding submitted_variants_def
  by (intro reachable_variants.submitted reachable_variants.submit reachable_variants.fileSelect
      reachable_variants.mount)

lemma regenerateDuringAutomatic_eq:
  "regenerateDuringAutomatic =
     resultState_variants
       \<lparr>stepVisuals := [(1, ''img1'')], generatingStepIndex := Some 2,
        gatewayLog :=
          [GenerateDIYPlan ''style'' ''room'',
           GenerateStepImage 1 ''Show it'' (Some ''room'') None,
           GenerateStepImage 2 ''Show it'' (Some ''img1'') None,
           RegenerateStepImage 1 ''Show it'' (Some ''room'') ''Match Reference'' ''Match Reference''],
        stepImagesInFlight := 2\<rparr>"
  unfolding regenerateDuringAutomatic_def submitted_variants_eq
  by (simp add: stepVisualizer_onClick_def handleGenerate_start_def isGenerating_def
      isLocked_def base64Context_def runEffect_variants_def orchestrator_variants_def
      generateVisualForStep_variants_settle_def generateVisualForStep_variants_start_def
      handleStepVisualGenerated_variants_def stepVisualsUpdater_def stepVisualsLoop_def
      parseInt_def plainDecimal_def nextStep_def resultState_variants_def examplePlan_def
      exampleStep_def truthy_def contextBase64_def)

lemma resetDuringAutomatic_eq:
  "resetDuringAutomatic =
     resultState_variants
       \<lparr>generatingStepIndex := Some 1,
        gatewayLog :=
          [GenerateDIYPlan ''style'' ''room'',
           GenerateStepImage 1 ''Show it'' (Some ''room'') None,
           GenerateDIYPlan ''style'' ''room'',
           GenerateStepImage 1 ''Show it'' (Some ''room'') None],
        stepImagesInFlight := 2\<rparr>"
  unfolding resetDuringAutomatic_def submitted_variants_eq
  by (simp add: runEffect_variants_def orchestrator_variants_def reset_variants_def
      handleSubmit_settle_def handleSubmit_variants_start_def handleFileSelect_settle_def
      generateVisualForStep_variants_start_def nextStep_def resultState_variants_def
      examplePlan_def exampleStep_def truthy_def contextBase64_def)

text \<open>
  C2, as the claim states it, fails: more than one step-image generation can be in
  flight. While the automatic request for step 2 is outstanding (the marker is 2), the
  Regenerate button of step 1 is enabled, and its click sends a second request without
  reading or setting the marker. And a reset clears the marker without settling the
  outstanding request, so that after a new submission the effect itself starts a second
  one. Both states are reached by events of the page and have two requests in flight.
\<close>

theorem two_step_images_in_flight_counterexample:
  "reachable_variants regenerateDuringAutomatic
   \<and> generatingStepIndex regenerateDuringAutomatic = Some 2
   \<and> stepImagesInFlight regenerateDuringAutomatic = 2
   \<and> gatewayLog regenerateDuringAutomatic =
       [GenerateDIYPlan ''style'' ''room'',
        GenerateStepImage 1 ''Show it'' (Some ''room'') None,
        GenerateStepImage 2 ''Show it'' (Some ''img1'') None,
        RegenerateStepImage 1 ''Show it'' (Some ''room'') ''Match Reference'' ''Match Reference'']
   \<and> reachable_variants resetDuringAutomatic
   \<and> stepImagesInFlight resetDuringAutomatic = 2
   \<and> gatewayLog resetDuringAutomatic =
       [GenerateDIYPlan ''style'' ''room'',
        GenerateStepImage 1 ''Show it'' (Some ''room'') None,
        GenerateDIYPlan ''style'' ''room'',
        GenerateStepImage 1 ''Show it'' (Some ''room'') None]"
proof -
  have r1: "reachable_variants regenerateDuringAutomatic"
    unfolding regenerateDuringAutomatic_def
    by (intro reachable_variants.visualizerClick reachable_variants.effect
        reachable_variants.stepSettled submitted_variants_reachable)
  have r2: "reachable_variants resetDuringAutomatic"
    unfolding resetDuringAutomatic_def
    by (intro reachable_variants.effect reachable_variants.submitted reachable_variants.submit
        reachable_variants.fileSelect reachable_variants.reset submitted_variants_reachable)
  from r1 r2 show ?thesis
    by (simp add: regenerateDuringAutomatic_eq resetDuringAutomatic_eq)
qed

text \<open>
  C2, amended. In both builds, while the in-flight marker generatingStepIndex is set, an
  evaluation of the automatic sequencing effect decides on no action and leaves the
  state, the request log included, as it is. So when an evaluation has started a step,
  two further evaluations while the marker of that step is set add no request: the three
  evaluations together send exactly one step-image request. (The marker is not set by a
  manual generation and is cleared by a reset; it does not bound the requests in
  flight.)
\<close>

theorem single_flight_step_generation:
  fixes v :: app_variants and n :: app_night
  shows "(generatingStepIndex v \<noteq> None \<longrightarrow>
            orchestrator_variants v = NoAction \<and> runEffect_variants v = v)
       \<and> (generatingStepIndex n \<noteq> None \<longrightarrow>
            orchestrator_night n = NoAction \<and> runEffect_night n = n)
       \<and> (orchestrator_variants v = GenerateVisualForStep st \<longrightarrow>
            stepImageCalls (runEffect_variants v) = stepImageCalls v + 1
          \<and> stepImageCalls (runEffect_variants (runEffect_variants (runEffect_variants v)))
              = stepImageCalls v + 1)
       \<and> (orchestrator_night n = GenerateVisualForStep st \<longrightarrow>
            stepImageCalls (runEffect_night n) = stepImageCalls n + 1
          \<and> stepImageCalls (runEffect_night (runEffect_night (runEffect_night n)))
              = stepImageCalls n + 1)"
proof (intro conjI impI)
  assume "generatingStepIndex v \<noteq> None"
  then show "orchestrator_variants v = NoAction" by (rule orchestrator_variants_in_flight)
  then show "runEffect_variants v = v" by (simp add: runEffect_variants_def)
next
  assume "generatingStepIndex n \<noteq> None"
  then show "orchestrator_night n = NoAction" by (rule orchestrator_night_in_flight)
  then show "runEffect_night n = n" by (simp add: runEffect_night_def)
next
  assume a: "orchestrator_variants v = GenerateVisualForStep st"
  then have r: "runEffect_variants v = generateVisualForStep_variants_start st v"
    by (simp add: runEffect_variants_def)
  show "stepImageCalls (runEffect_variants v) = stepImageCalls v + 1"
    by (simp add: r stepImageCalls_start_variants)
  have "orchestrator_variants (runEffect_variants v) = NoAction"
    by (rule orchestrator_variants_in_flight) (simp add: r in_flight_after_start_variants)
  then have "runEffect_variants (runEffect_variants v) = runEffect_variants v"
    by (simp add: runEffect_variants_def)
  then show "stepImageCalls (runEffect_variants (runEffect_variants (runEffect_variants v)))
              = stepImageCalls v + 1"
    by (simp add: r stepImageCalls_start_variants)
next
  assume a: "orchestrator_night n = GenerateVisualForStep st"
  then have r: "runEffect_night n = generateVisualForStep_night_start st n"
    by (simp add: runEffect_night_def)
  show "stepImageCalls (runEffect_night n) = stepImageCalls n + 1"
    by (simp add: r stepImageCalls_start_night)
  have "orchestrator_night (runEffect_night n) = NoAction"
    by (rule orchestrator_night_in_flight) (simp add: r in_flight_after_start_night)
  then have "runEffect_night (runEffect_night n) = runEffect_night n"
    by (simp add: runEffect_night_def)
  then show "stepImageCalls (runEffect_night (runEffect_night (runEffect_night n)))
              = stepImageCalls n + 1"
    by (simp add: r stepImageCalls_start_night)
qed

theorem single_flight_step_generation_witness:
  "generatingStepIndex (runEffect_variants resultState_variants) \<noteq> None
   \<and> runEffect_variants (runEffect_variants resultState_variants)
       = runEffect_variants resultState_variants
   \<and> generatingStepIndex (runEffect_night resultState_night) \<noteq> None
   \<and> runEffect_night (runEffect_night resultState_night) = runEffect_night resultState_night
   \<and> stepImageCalls (runEffect_variants (runEffect_variants (runEffect_variants
        resultState_variants))) = 1
   \<and> stepImageCalls (runEffect_night (runEffect_night (runEffect_night resultState_night))) = 1"
proof -
  have v: "generatingStepIndex (runEffect_variants resultState_variants) \<noteq> None"
    by (simp add: runEffect_variants_def orchestrator_resultState_variants
        in_flight_after_start_variants)
  have n: "generatingStepIndex (runEffect_night resultState_night) \<noteq> None"
    by (simp add: runEffect_night_def orchestrator_resultState_night in_flight_after_start_night)
  have v0: "stepImageCalls resultState_variants = 0"
    by (simp add: stepImageCalls_def resultState_variants_def)
  have n0: "stepImageCalls resultState_night = 0"
    by (simp add: stepImageCalls_def resultState_night_def)
  from single_flight_step_generation
    [of "runEffect_variants resultState_variants" "runEffect_night resultState_night"]
    single_flight_step_generation [of resultState_variants resultState_night "exampleStep 1"]
    v n v0 n0 orchestrator_resultState_variants orchestrator_resultState_night
  show ?thesis by simp
qed

section \<open>A failed automatic attempt\<close>

text \<open>
  A failed attempt changes nothing but the request log: the marker set at the start is
  cleared by \<^verbatim>\<open>finally\<close> and nothing is stored.
\<close>

lemma failed_attempt_variants:
  "generatingStepIndex v = None \<Longrightarrow>
   generateVisualForStep_variants_settle st (Inl e) (generateVisualForStep_variants_start st v)
     = v\<lparr>gatewayLog := gatewayLog v @
           [GenerateStepImage (stepNumber st) (visualizationPrompt st) (contextBase64 v st) None]\<rparr>"
  by (simp add: generateVisualForStep_variants_settle_def generateVisualForStep_variants_start_def)

lemma failed_attempt_night:
  "generatingStepIndex n = None \<Longrightarrow>
   generateVisualForStep_night_settle st (Inl e) (generateVisualForStep_night_start st n)
     = n\<lparr>gatewayLog := gatewayLog n @
           [GenerateStepImage (stepNumber st) (visualizationPrompt st) (contextBase64 n st)
              (Some (previousContext n st))]\<rparr>"
  by (simp add: generateVisualForStep_night_settle_def generateVisualForStep_night_start_def)

lemma orchestrator_variants_gatewayLog:
  "orchestrator_variants (v\<lparr>gatewayLog := l\<rparr>) = orchestrator_variants v"
  by (simp add: orchestrator_variants_def nextStep_def isFinalStepVisualized_def
      split: option.splits list.splits)

lemma orchestrator_night_gatewayLog:
  "orchestrator_night (n\<lparr>gatewayLog := l\<rparr>) = orchestrator_night n"
  by (simp add: orchestrator_night_def nextStep_def split: option.splits)

text \<open>
  Whenever the effect has started a step and the attempt fails, the next evaluation of
  the effect starts the same step again.
\<close>

lemma failed_attempt_retried_variants:
  assumes "orchestrator_variants v = GenerateVisualForStep st"
  shows "orchestrator_variants
           (generateVisualForStep_variants_settle st (Inl e) (runEffect_variants v))
         = GenerateVisualForStep st"
proof -
  from assms have "generatingStepIndex v = None"
    by (auto simp: orchestrator_variants_def split: option.splits if_splits)
  with assms show ?thesis
    by (simp add: runEffect_variants_def failed_attempt_variants orchestrator_variants_gatewayLog)
qed

lemma failed_attempt_retried_night:
  assumes "orchestrator_night n = GenerateVisualForStep st"
  shows "orchestrator_night (generateVisualForStep_night_settle st (Inl e) (runEffect_night n))
         = GenerateVisualForStep st"
proof -
  from assms have "generatingStepIndex n = None"
    by (auto simp: orchestrator_night_def split: option.splits if_splits)
  with assms show ?thesis
    by (simp add: runEffect_night_def failed_attempt_night orchestrator_night_gatewayLog)
qed

lemma stepTwoFailed_variants_eq:
  "stepTwoFailed_variants = resultState_variants\<lparr>stepVisuals := [(1, ''img1'')],
      gatewayLog := [GenerateStepImage 1 ''Show it'' (Some ''room'') None,
                     GenerateStepImage 2 ''Show it'' (Some ''img1'') None]\<rparr>"
  by (simp add: stepTwoFailed_variants_def runEffect_variants_def orchestrator_variants_def
      generateVisualForStep_variants_settle_def generateVisualForStep_variants_start_def
      handleStepVisualGenerated_variants_def stepVisualsUpdater_def stepVisualsLoop_def
      parseInt_def plainDecimal_def nextStep_def
      resultState_variants_def examplePlan_def exampleStep_def truthy_def contextBase64_def)

lemma stepTwoFailed_night_eq:
  "stepTwoFailed_night = resultState_night\<lparr>stepVisuals := [(1, ''img1'')],
      gatewayLog := [GenerateStepImage 1 ''Show it'' (Some ''room'') (Some []),
                     GenerateStepImage 2 ''Show it'' (Some ''img1'') (Some ''Do it'')]\<rparr>"
  by (simp add: stepTwoFailed_night_def runEffect_night_def orchestrator_night_def
      generateVisualForStep_night_settle_def generateVisualForStep_night_start_def
      handleStepVisualGenerated_night_def stepVisualsUpdater_def stepVisualsLoop_def
      parseInt_def plainDecimal_def nextStep_def
      resultState_night_def examplePlan_def exampleStep_def truthy_def contextBase64_def
      previousContext_def)

text \<open>
  C3. The claim is that after a failed automatic attempt for step \<open>n\<close> the orchestrator
  never re-attempts \<open>n\<close> by itself. On the three-step plan, once step 1 has succeeded and
  step 2 has failed, the store holds key 1 only and the marker is clear, and the next
  evaluation of the effect (which the change of the marker causes) decides to generate
  step 2 again and sends a second request for it; in both builds. No request for step 3
  is sent.
\<close>

theorem failed_step_is_retried:
  "stepVisuals stepTwoFailed_variants = [(1, ''img1'')]
   \<and> generatingStepIndex stepTwoFailed_variants = None
   \<and> orchestrator_variants stepTwoFailed_variants = GenerateVisualForStep (exampleStep 2)
   \<and> gatewayLog (runEffect_variants stepTwoFailed_variants) =
       [GenerateStepImage 1 ''Show it'' (Some ''room'') None,
        GenerateStepImage 2 ''Show it'' (Some ''img1'') None,
        GenerateStepImage 2 ''Show it'' (Some ''img1'') None]
   \<and> stepVisuals stepTwoFailed_night = [(1, ''img1'')]
   \<and> generatingStepIndex stepTwoFailed_night = None
   \<and> orchestrator_night stepTwoFailed_night = GenerateVisualForStep (exampleStep 2)
   \<and> gatewayLog (runEffect_night stepTwoFailed_night) =
       [GenerateStepImage 1 ''Show it'' (Some ''room'') (Some []),
        GenerateStepImage 2 ''Show it'' (Some ''img1'') (Some ''Do it''),
        GenerateStepImage 2 ''Show it'' (Some ''img1'') (Some ''Do it'')]"
  unfolding stepTwoFailed_variants_eq stepTwoFailed_night_eq
  by (simp add: runEffect_variants_def orchestrator_variants_def runEffect_night_def
      orchestrator_night_def generateVisualForStep_variants_start_def
      generateVisualForStep_night_start_def nextStep_def resultState_variants_def
      resultState_night_def examplePlan_def exampleStep_def truthy_def contextBase64_def
      previousContext_def)

section \<open>The tour video gates the sequencing (first build)\<close>

text \<open>
  C10. In the first build, while a tour video is loading or a video URL is stored (a
  stored URL is an object URL, a non-empty string), an evaluation of the effect decides
  on no action, whatever the plan and the step visuals are, and changes nothing; this
  still holds after handleStepVisualGenerated has invalidated step visuals, since it
  writes neither the video URL nor the loading flag.
\<close>

theorem video_gates_automatic_sequencing:
  "isVideoLoading v \<or> truthy (videoUrl v) \<Longrightarrow>
     orchestrator_variants v = NoAction \<and> runEffect_variants v = v
   \<and> orchestrator_variants (handleStepVisualGenerated_variants k img v) = NoAction"
  by (auto simp: orchestrator_variants_def runEffect_variants_def
      handleStepVisualGenerated_variants_def split: option.splits)

theorem video_gates_automatic_sequencing_witness:
  "truthy (videoUrl (resultState_variants\<lparr>videoUrl := Some ''blob:tour''\<rparr>))
   \<and> nextStep resultState_variants examplePlan = Some (exampleStep 1)
   \<and> orchestrator_variants (resultState_variants\<lparr>videoUrl := Some ''blob:tour''\<rparr>) = NoAction
   \<and> orchestrator_variants (resultState_variants\<lparr>isVideoLoading := True\<rparr>) = NoAction"
proof -
  have t: "truthy (videoUrl (resultState_variants\<lparr>videoUrl := Some ''blob:tour''\<rparr>))"
    by (simp add: truthy_def)
  have l: "isVideoLoading (resultState_variants\<lparr>isVideoLoading := True\<rparr>)"
    by simp
  have n: "nextStep resultState_variants examplePlan = Some (exampleStep 1)"
    by (simp add: nextStep_def resultState_variants_def examplePlan_def truthy_def)
  from video_gates_automatic_sequencing [OF disjI2, OF t]
    video_gates_automatic_sequencing [OF disjI1, OF l] t n
  show ?thesis by simp
qed

section \<open>Artifacts derived from the final visual\<close>

text \<open>
  In the first build no event stores a video URL or sets the video loading flag: the
  only function that does, handleGenerateVideo, is never called.
\<close>

lemma reachable_variants_no_video:
  "reachable_variants s \<Longrightarrow> videoUrl s = None \<and> \<not> isVideoLoading s"
proof (induction rule: reachable_variants.induct)
  case mount
  show ?case by (simp add: mountState_variants_def)
next
  case (fileSelect s type res)
  then show ?case by (simp add: handleFileSelect_settle_def split: sum.splits upload.splits)
next
  case (clear s type)
  then show ?case by (simp add: onClear_def split: upload.splits)
next
  case (submit s)
  then show ?case by (simp add: handleSubmit_variants_start_def split: option.splits)
next
  case (submitted s planRes)
  then show ?case by (simp add: handleSubmit_settle_def split: sum.splits)
next
  case (reset s)
  show ?case by (simp add: reset_variants_def)
next
  case (effect s)
  then show ?case
    by (simp add: runEffect_variants_def generateVisualForStep_variants_start_def
        handleGenerateVariants_start_def split: action.splits option.splits list.splits)
next
  case (stepSettled s step res)
  then show ?case
    by (simp add: generateVisualForStep_variants_settle_def handleStepVisualGenerated_variants_def
        split: sum.splits)
next
  case (variantsSettled s gw)
  then show ?case by (simp add: handleGenerateVariants_settle_def)
next
  case (visualizerClick s idx lighting cameraAngle)
  then show ?case
    by (simp add: stepVisualizer_onClick_def handleGenerate_start_def Let_def
        split: option.splits)
next
  case (visualizerSettled s step res)
  then show ?case
    by (simp add: handleGenerate_variants_settle_def handleStepVisualGenerated_variants_def
        split: sum.splits)
next
  case (toggle s stepIndex subIdx)
  then show ?case by (simp add: toggleSubstep_def)
next
  case (save s sIdx subIdx editValue s')
  then show ?case
    by (auto simp: saveSubstep_def Let_def split: option.splits if_splits)
next
  case (delete s sIdx subIdx s')
  then show ?case
    by (auto simp: deleteSubstep_def split: option.splits if_splits)
next
  case (move s sIdx subIdx direction s')
  then show ?case
    by (auto simp: moveSubstep_def Let_def split: option.splits if_splits)
next
  case (add s sIdx s')
  then show ?case
    by (auto simp: addSubstep_def split: option.splits if_splits)
next
  case (materialClick s item)
  then show ?case by (simp add: handleMaterialClick_start_def)
next
  case (materialSettled s item res)
  then show ?case by (simp add: handleMaterialClick_settle_def split: sum.splits)
next
  case (closeModal s)
  then show ?case by (simp add: closeMaterialModal_def)
qed

text \<open>
  C4. Whatever step \<open>k\<close> is written, handleStepVisualGenerated empties the variants map
  in the first build and clears the night-tour video URL and the summary audio buffer in
  the second; so does a successful automatic attempt, which goes through it. In the
  first build the tour video is not wired: handleStepVisualGenerated leaves the video
  URL as it is, and in every state the component can reach there is no video URL, so
  that after the write no artifact derived from the final visual is left there either.
\<close>

theorem derived_artifacts_cleared:
  "variants (handleStepVisualGenerated_variants k img v) = []
   \<and> videoUrl (handleStepVisualGenerated_variants k img v) = videoUrl v
   \<and> (reachable_variants v \<longrightarrow> videoUrl (handleStepVisualGenerated_variants k img v) = None)
   \<and> nightVideoUrl (handleStepVisualGenerated_night k img n) = None
   \<and> summaryAudioBuffer (handleStepVisualGenerated_night k img n) = None
   \<and> variants (generateVisualForStep_variants_settle st (Inr img) v) = []
   \<and> nightVideoUrl (generateVisualForStep_night_settle st (Inr img) n) = None
   \<and> summaryAudioBuffer (generateVisualForStep_night_settle st (Inr img) n) = None"
  using reachable_variants_no_video [of v]
  by (simp add: handleStepVisualGenerated_variants_def handleStepVisualGenerated_night_def
      generateVisualForStep_variants_settle_def generateVisualForStep_night_settle_def)

theorem derived_artifacts_cleared_witness:
  "reachable_variants (handleGenerateVariants_settle exampleVariantGateway submitted_variants)
   \<and> variants (handleGenerateVariants_settle exampleVariantGateway submitted_variants) \<noteq> []
   \<and> variants (handleStepVisualGenerated_variants 1 ''new''
        (handleGenerateVariants_settle exampleVariantGateway submitted_variants)) = []
   \<and> videoUrl (handleStepVisualGenerated_variants 1 ''new''
        (handleGenerateVariants_settle exampleVariantGateway submitted_variants)) = None
   \<and> nightVideoUrl (handleStepVisualGenerated_night 1 ''new''
      (resultState_night\<lparr>nightVideoUrl := Some ''blob:night'',
         summaryAudioBuffer := Some ''pcm''\<rparr>)) = None
   \<and> summaryAudioBuffer (handleStepVisualGenerated_night 1 ''new''
      (resultState_night\<lparr>nightVideoUrl := Some ''blob:night'',
         summaryAudioBuffer := Some ''pcm''\<rparr>)) = None"
proof -
  have r: "reachable_variants (handleGenerateVariants_settle exampleVariantGateway submitted_variants)"
    by (intro reachable_variants.variantsSettled submitted_variants_reachable)
  have ne: "variants (handleGenerateVariants_settle exampleVariantGateway submitted_variants) \<noteq> []"
    by (simp add: handleGenerateVariants_settle_def newVariants_def variantResults_def
        variantConfigs_def exampleVariantGateway_def)
  from derived_artifacts_cleared
    [of 1 "''new''" "handleGenerateVariants_settle exampleVariantGateway submitted_variants"
        "resultState_night\<lparr>nightVideoUrl := Some ''blob:night'', summaryAudioBuffer := Some ''pcm''\<rparr>"
        "exampleStep 1"]
    r ne
  show ?thesis by blast
qed

section \<open>The variant batch\<close>

text \<open>
  Writing the results into an empty object, one name at a time, appends the succeeded
  configurations in their order, since the names differ.
\<close>

lemma update_fresh: "k \<notin> fst ` set al \<Longrightarrow> AList.update k v al = al @ [(k, v)]"
  by (induction al) auto

lemma fold_update_fresh:
  "distinct (map fst cs) \<Longrightarrow> fst ` set cs \<inter> fst ` set acc = {} \<Longrightarrow>
   fold (\<lambda>res acc. case res of Some (nm, url) \<Rightarrow> AList.update nm url acc | None \<Rightarrow> acc)
     (map (\<lambda>conf. case gw conf of Inr url \<Rightarrow> Some (fst conf, url) | Inl e \<Rightarrow> None) cs) acc
   = acc @ List.map_filter (\<lambda>conf. case gw conf of Inr url \<Rightarrow> Some (fst conf, url) | Inl e \<Rightarrow> None) cs"
proof (induction cs arbitrary: acc)
  case Nil
  show ?case by (simp add: List.map_filter_simps)
next
  case (Cons c cs)
  from Cons.prems have fresh: "fst c \<notin> fst ` set acc" by auto
  show ?case
  proof (cases "gw c")
    case (Inl e)
    with Cons show ?thesis by (simp add: List.map_filter_simps)
  next
    case (Inr url)
    from Cons.prems have "fst ` set cs \<inter> fst ` set (acc @ [(fst c, url)]) = {}"
      by (auto simp: image_iff)
    with Cons have "fold (\<lambda>res acc. case res of Some (nm, url) \<Rightarrow> AList.update nm url acc | None \<Rightarrow> acc)
     (map (\<lambda>conf. case gw conf of Inr url \<Rightarrow> Some (fst conf, url) | Inl e \<Rightarrow> None) cs) (acc @ [(fst c, url)])
       = (acc @ [(fst c, url)]) @ List.map_filter (\<lambda>conf. case gw conf of Inr url \<Rightarrow> Some (fst conf, url) | Inl e \<Rightarrow> None) cs"
      by simp
    with Inr fresh show ?thesis by (simp add: List.map_filter_simps update_fresh)
  qed
qed

lemma variantConfigs_names:
  "map fst variantConfigs = [''Golden Hour Glow'', ''Evening Ambience'', ''Wide Perspective'']"
  by (simp add: variantConfigs_def)

lemma variantConfigs_distinct: "distinct (map fst variantConfigs)"
  by (simp add: variantConfigs_names)

lemma newVariants_eq:
  "newVariants (variantResults gw) =
     List.map_filter (\<lambda>conf. case gw conf of Inr url \<Rightarrow> Some (fst conf, url) | Inl e \<Rightarrow> None)
       variantConfigs"
  unfolding newVariants_def variantResults_def
  using fold_update_fresh [OF variantConfigs_distinct, of "[]" gw] by simp

lemma keys_map_filter:
  "map fst (List.map_filter (\<lambda>conf. case gw conf of Inr url \<Rightarrow> Some (fst conf, url) | Inl e \<Rightarrow> None) cs)
     = map fst (filter (\<lambda>conf. \<not> isl (gw conf)) cs)"
  by (induction cs) (auto simp: List.map_filter_simps split: sum.splits)

lemma map_of_map_filter:
  "distinct (map fst cs) \<Longrightarrow> conf \<in> set cs \<Longrightarrow> gw conf = Inr url \<Longrightarrow>
   map_of (List.map_filter (\<lambda>conf. case gw conf of Inr url \<Rightarrow> Some (fst conf, url) | Inl e \<Rightarrow> None) cs)
     (fst conf) = Some url"
proof (induction cs)
  case Nil
  then show ?case by simp
next
  case (Cons c cs)
  show ?case
  proof (cases "conf = c")
    case True
    with Cons.prems show ?thesis by (simp add: List.map_filter_simps)
  next
    case False
    with Cons.prems have "fst conf \<noteq> fst c" by (auto simp: image_iff)
    with False Cons show ?thesis by (auto simp: List.map_filter_simps split: sum.splits)
  qed
qed

lemma variants_settle:
  "variants (handleGenerateVariants_settle gw s) =
     List.map_filter (\<lambda>conf. case gw conf of Inr url \<Rightarrow> Some (fst conf, url) | Inl e \<Rightarrow> None)
       variantConfigs"
  by (simp add: handleGenerateVariants_settle_def newVariants_eq)

lemma variants_start: "variants (handleGenerateVariants_start s) = variants s"
  by (simp add: handleGenerateVariants_start_def split: option.splits list.splits)

lemma requests_start:
  "plan s = Some p \<Longrightarrow> steps p \<noteq> [] \<Longrightarrow>
     length (gatewayLog (handleGenerateVariants_start s)) = length (gatewayLog s) + 3"
  using arg_cong [OF variantConfigs_names, of length]
  by (simp add: handleGenerateVariants_start_def split: list.splits)

lemma filter_partition_length:
  "length (filter (\<lambda>x. \<not> P x) xs) = length xs - length (filter P xs)"
  using sum_length_filter_compl [of P xs] by simp

text \<open>
  C5. Whatever subset of the three requests fails (\<open>gw\<close> is arbitrary): when the batch
  settles, in whatever state \<open>s'\<close> the component then is, the variants map holds the
  returned image under the name of every configuration whose request succeeded, no key
  for a configuration whose request failed and no other key, with one entry per
  success; it does not depend on the previous map. Starting the batch sends the three
  requests and does not touch the map, which is written once, at the end. With exactly
  one failure the map has two entries.
\<close>

theorem variant_batch_isolates_failures:
  fixes gw :: "(string \<times> string \<times> string) \<Rightarrow> string outcome" and s s' :: app_variants
  defines "vs \<equiv> variants (handleGenerateVariants_settle gw s')"
  shows "(\<forall>conf \<in> set variantConfigs. \<forall>url. gw conf = Inr url \<longrightarrow> map_of vs (fst conf) = Some url)
       \<and> (\<forall>conf \<in> set variantConfigs. isl (gw conf) \<longrightarrow> fst conf \<notin> fst ` set vs)
       \<and> fst ` set vs \<subseteq> fst ` set variantConfigs
       \<and> distinct (map fst vs)
       \<and> length vs = length (filter (\<lambda>conf. \<not> isl (gw conf)) variantConfigs)
       \<and> (length (filter (\<lambda>conf. isl (gw conf)) variantConfigs) = 1 \<longrightarrow> length vs = 2)
       \<and> variants (handleGenerateVariants_start s) = variants s
       \<and> (\<forall>p. plan s = Some p \<and> steps p \<noteq> [] \<longrightarrow>
             length (gatewayLog (handleGenerateVariants_start s)) = length (gatewayLog s) + 3)"
proof -
  have keys: "map fst vs = map fst (filter (\<lambda>conf. \<not> isl (gw conf)) variantConfigs)"
    by (simp add: vs_def variants_settle keys_map_filter)
  have len: "length vs = length (filter (\<lambda>conf. \<not> isl (gw conf)) variantConfigs)"
    using arg_cong [OF keys, of length] by simp
  have three: "length variantConfigs = 3"
    using arg_cong [OF variantConfigs_names, of length] by simp
  have 1: "\<forall>conf \<in> set variantConfigs. \<forall>url. gw conf = Inr url \<longrightarrow> map_of vs (fst conf) = Some url"
    by (auto simp: vs_def variants_settle intro: map_of_map_filter [OF variantConfigs_distinct])
  have set_keys: "fst ` set vs = fst ` set (filter (\<lambda>conf. \<not> isl (gw conf)) variantConfigs)"
    using arg_cong [OF keys, of set] by simp
  have 2: "\<forall>conf \<in> set variantConfigs. isl (gw conf) \<longrightarrow> fst conf \<notin> fst ` set vs"
  proof (intro ballI impI notI)
    fix conf assume c: "conf \<in> set variantConfigs" "isl (gw conf)" "fst conf \<in> fst ` set vs"
    then obtain c' where c': "c' \<in> set variantConfigs" "\<not> isl (gw c')" "fst c' = fst conf"
      unfolding set_keys by auto
    with c variantConfigs_distinct have "c' = conf"
      by (auto simp: distinct_map inj_on_def)
    with c c' show False by simp
  qed
  have 3: "fst ` set vs \<subseteq> fst ` set variantConfigs"
    unfolding set_keys by auto
  have 4: "distinct (map fst vs)"
    unfolding keys using variantConfigs_distinct by (rule distinct_map_filter)
  have 6: "length (filter (\<lambda>conf. isl (gw conf)) variantConfigs) = 1 \<longrightarrow> length vs = 2"
    using len three by (simp add: filter_partition_length)
  show ?thesis
    using 1 2 3 4 len 6 variants_start [of s] requests_start [of s] by blast
qed

theorem variant_batch_isolates_failures_witness:
  "length (filter (\<lambda>conf. isl (exampleVariantGateway conf)) variantConfigs) = 1
   \<and> variants (handleGenerateVariants_settle exampleVariantGateway
        (handleGenerateVariants_start
           (allVisualized_variants\<lparr>variants := [(''Old'', ''old'')]\<rparr>)))
       = [(''Golden Hour Glow'', ''data:Golden Hour Glow''),
          (''Wide Perspective'', ''data:Wide Perspective'')]
   \<and> length (variants (handleGenerateVariants_settle exampleVariantGateway
        (handleGenerateVariants_start
           (allVisualized_variants\<lparr>variants := [(''Old'', ''old'')]\<rparr>)))) = 2"
proof -
  let ?s' = "handleGenerateVariants_start (allVisualized_variants\<lparr>variants := [(''Old'', ''old'')]\<rparr>)"
  have one: "length (filter (\<lambda>conf. isl (exampleVariantGateway conf)) variantConfigs) = 1"
    by (simp add: exampleVariantGateway_def variantConfigs_def)
  have vs: "variants (handleGenerateVariants_settle exampleVariantGateway ?s')
       = [(''Golden Hour Glow'', ''data:Golden Hour Glow''),
          (''Wide Perspective'', ''data:Wide Perspective'')]"
    by (simp add: variants_settle exampleVariantGateway_def variantConfigs_def
        List.map_filter_simps)
  from variant_batch_isolates_failures [where gw = exampleVariantGateway and s' = ?s']
  have "length (filter (\<lambda>conf. isl (exampleVariantGateway conf)) variantConfigs) = 1 \<longrightarrow>
          length (variants (handleGenerateVariants_settle exampleVariantGateway ?s')) = 2"
    by blast
  with one have "length (variants (handleGenerateVariants_settle exampleVariantGateway ?s')) = 2"
    by blast
  with one vs show ?thesis by blast
qed

section \<open>On-demand requests\<close>

text \<open>
  C6, as the claim states it, fails. After the summary audio has arrived (the buffer is
  stored and nothing is loading), a second click on the button sends a second summary
  request; and a second click on a material whose image is still being generated sends
  a second product-image request.
\<close>

theorem duplicate_requests_counterexample:
  "summaryAudioBuffer (handleGenerateSummary_settle (Inr ''pcm'') (playSummary_onClick allVisualized_night))
     = Some ''pcm''
   \<and> gatewayLog summaryPlayedTwice =
       [GenerateProjectSummaryAudio examplePlan, GenerateProjectSummaryAudio examplePlan]
   \<and> generatingMaterialImage (handleMaterialClick_start paint allVisualized_night)
   \<and> gatewayLog materialClickedTwice =
       [GenerateProductImage ''Paint'' ''Nordic'', GenerateProductImage ''Paint'' ''Nordic'']"
  by (simp add: summaryPlayedTwice_def materialClickedTwice_def playSummary_onClick_def
      handleGenerateSummary_start_def handleGenerateSummary_settle_def handleMaterialClick_start_def
      materialImageTruthy_def objectPrototypeNames_def
      allVisualized_night_def resultState_night_def paint_def truthy_def productStyle_def
      examplePlan_def closeMaterialModal_def)

text \<open>
  C6, amended. A material click sends no request when a non-empty image is cached under
  the material's name, and more generally when the lookup of the name in the cache
  object is truthy, which it also is for a name that every object inherits (such as
  \<^verbatim>\<open>constructor\<close> or \<^verbatim>\<open>toString\<close>) and that the cache does not hold as its own. When the
  lookup is not truthy the click sends one request, whether or not an image is being
  generated. Both video handlers return without a request or any change while their
  video is loading or its URL is stored. The summary handler sends a request whenever
  there is a plan, whether or not a buffer is stored; its button does nothing while the
  summary is loading.
\<close>

theorem on_demand_request_guards:
  fixes s :: "'a app_scheme" and v :: app_variants and n :: app_night
  shows "(materialImages s (name item) = Some url \<and> url \<noteq> [] \<longrightarrow>
            gatewayLog (handleMaterialClick_start item s) = gatewayLog s)
       \<and> (materialImageTruthy s (name item) \<longrightarrow>
            gatewayLog (handleMaterialClick_start item s) = gatewayLog s)
       \<and> (materialImages s (name item) = None \<and> name item \<in> set objectPrototypeNames \<longrightarrow>
            gatewayLog (handleMaterialClick_start item s) = gatewayLog s)
       \<and> (\<not> materialImageTruthy s (name item) \<longrightarrow>
            gatewayLog (handleMaterialClick_start item s)
              = gatewayLog s @ [GenerateProductImage (name item) (productStyle s item)])
       \<and> (isVideoLoading v \<or> truthy (videoUrl v) \<longrightarrow> handleGenerateVideo_start v = v)
       \<and> (isNightVideoLoading n \<or> truthy (nightVideoUrl n) \<longrightarrow>
            handleGenerateNightTour_start n = n)
       \<and> (isSummaryLoading n \<longrightarrow> playSummary_onClick n = n)
       \<and> (\<not> isSummaryLoading n \<and> plan n = Some p \<longrightarrow>
            gatewayLog (playSummary_onClick n) = gatewayLog n @ [GenerateProjectSummaryAudio p])
       \<and> (plan n = Some p \<longrightarrow>
            gatewayLog (handleGenerateSummary_start n)
              = gatewayLog n @ [GenerateProjectSummaryAudio p])"
proof -
  have 1: "materialImages s (name item) = Some url \<and> url \<noteq> [] \<longrightarrow>
            gatewayLog (handleMaterialClick_start item s) = gatewayLog s"
    by (simp add: handleMaterialClick_start_def materialImageTruthy_def)
  have 2: "materialImageTruthy s (name item) \<longrightarrow>
            gatewayLog (handleMaterialClick_start item s) = gatewayLog s"
    by (simp add: handleMaterialClick_start_def)
  have 3: "materialImages s (name item) = None \<and> name item \<in> set objectPrototypeNames \<longrightarrow>
            gatewayLog (handleMaterialClick_start item s) = gatewayLog s"
    by (simp add: handleMaterialClick_start_def materialImageTruthy_def)
  have 4: "\<not> materialImageTruthy s (name item) \<longrightarrow>
            gatewayLog (handleMaterialClick_start item s)
              = gatewayLog s @ [GenerateProductImage (name item) (productStyle s item)]"
    by (simp add: handleMaterialClick_start_def)
  have 5: "isVideoLoading v \<or> truthy (videoUrl v) \<longrightarrow> handleGenerateVideo_start v = v"
    by (auto simp: handleGenerateVideo_start_def split: option.splits)
  have 6: "isNightVideoLoading n \<or> truthy (nightVideoUrl n) \<longrightarrow>
            handleGenerateNightTour_start n = n"
    by (auto simp: handleGenerateNightTour_start_def split: option.splits)
  have 7: "isSummaryLoading n \<longrightarrow> playSummary_onClick n = n"
    by (simp add: playSummary_onClick_def)
  have 8: "\<not> isSummaryLoading n \<and> plan n = Some p \<longrightarrow>
            gatewayLog (playSummary_onClick n) = gatewayLog n @ [GenerateProjectSummaryAudio p]"
    by (simp add: playSummary_onClick_def handleGenerateSummary_start_def)
  have 9: "plan n = Some p \<longrightarrow>
            gatewayLog (handleGenerateSummary_start n)
              = gatewayLog n @ [GenerateProjectSummaryAudio p]"
    by (simp add: handleGenerateSummary_start_def)
  from 1 2 3 4 5 6 7 8 9 show ?thesis by blast
qed

theorem on_demand_request_guards_witness:
  "materialImages
      (handleMaterialClick_settle paint (Inr ''data:paint'')
         (handleMaterialClick_start paint allVisualized_night)) (name paint) = Some ''data:paint''
   \<and> gatewayLog (handleMaterialClick_start paint
        (handleMaterialClick_settle paint (Inr ''data:paint'')
           (handleMaterialClick_start paint allVisualized_night)))
       = [GenerateProductImage ''Paint'' ''Nordic'']
   \<and> materialImages allVisualized_night ''toString'' = None
   \<and> materialImageTruthy allVisualized_night ''toString''
   \<and> gatewayLog (handleMaterialClick_start \<lparr>name = ''toString'', category = consumable\<rparr>
        allVisualized_night) = []
   \<and> \<not> materialImageTruthy allVisualized_night ''Paint''
   \<and> gatewayLog (handleMaterialClick_start paint allVisualized_night)
       = [GenerateProductImage ''Paint'' ''Nordic'']
   \<and> truthy (nightVideoUrl (allVisualized_night\<lparr>nightVideoUrl := Some ''blob:night''\<rparr>))
   \<and> handleGenerateNightTour_start (allVisualized_night\<lparr>nightVideoUrl := Some ''blob:night''\<rparr>)
       = allVisualized_night\<lparr>nightVideoUrl := Some ''blob:night''\<rparr>
   \<and> truthy (videoUrl (allVisualized_variants\<lparr>videoUrl := Some ''blob:tour''\<rparr>))
   \<and> handleGenerateVideo_start (allVisualized_variants\<lparr>videoUrl := Some ''blob:tour''\<rparr>)
       = allVisualized_variants\<lparr>videoUrl := Some ''blob:tour''\<rparr>
   \<and> isSummaryLoading (playSummary_onClick allVisualized_night)
   \<and> playSummary_onClick (playSummary_onClick allVisualized_night)
       = playSummary_onClick allVisualized_night"
proof -
  let ?c = "handleMaterialClick_settle paint (Inr ''data:paint'')
              (handleMaterialClick_start paint allVisualized_night)"
  let ?t = "\<lparr>name = ''toString'', category = consumable\<rparr>"
  let ?vv = "allVisualized_variants\<lparr>videoUrl := Some ''blob:tour''\<rparr>"
  let ?nv = "allVisualized_night\<lparr>nightVideoUrl := Some ''blob:night''\<rparr>"
  have c: "materialImages ?c (name paint) = Some ''data:paint''"
    by (simp add: handleMaterialClick_settle_def)
  have l: "gatewayLog ?c = [GenerateProductImage ''Paint'' ''Nordic'']"
    by (simp add: handleMaterialClick_settle_def handleMaterialClick_start_def
        materialImageTruthy_def objectPrototypeNames_def
        allVisualized_night_def resultState_night_def paint_def truthy_def productStyle_def
        examplePlan_def)
  have e: "gatewayLog allVisualized_night = []"
    by (simp add: allVisualized_night_def resultState_night_def)
  have tn: "materialImages allVisualized_night ''toString'' = None"
    by (simp add: allVisualized_night_def resultState_night_def)
  have tt: "materialImageTruthy allVisualized_night ''toString''"
    by (simp add: materialImageTruthy_def tn objectPrototypeNames_def)
  have pn: "\<not> materialImageTruthy allVisualized_night ''Paint''"
    by (simp add: materialImageTruthy_def objectPrototypeNames_def
        allVisualized_night_def resultState_night_def)
  have ps: "productStyle allVisualized_night paint = ''Nordic''"
    by (simp add: productStyle_def allVisualized_night_def resultState_night_def paint_def
        examplePlan_def)
  have nv: "truthy (nightVideoUrl ?nv)"
    by (simp add: truthy_def)
  have vv: "truthy (videoUrl ?vv)"
    by (simp add: truthy_def)
  have sl: "isSummaryLoading (playSummary_onClick allVisualized_night)"
    by (simp add: playSummary_onClick_def handleGenerateSummary_start_def
        allVisualized_night_def resultState_night_def)
  have 1: "gatewayLog (handleMaterialClick_start paint ?c) = gatewayLog ?c"
    using on_demand_request_guards [where s = ?c and item = paint and url = "''data:paint''"
        and v = ?vv and n = ?nv and p = examplePlan] c
    by simp
  have 2: "gatewayLog (handleMaterialClick_start ?t allVisualized_night)
             = gatewayLog allVisualized_night"
    using on_demand_request_guards [where s = allVisualized_night and item = ?t
        and url = "''x''" and v = ?vv and n = ?nv and p = examplePlan] tt
    by simp
  have 3: "gatewayLog (handleMaterialClick_start paint allVisualized_night)
             = gatewayLog allVisualized_night
                 @ [GenerateProductImage (name paint) (productStyle allVisualized_night paint)]"
    using on_demand_request_guards [where s = allVisualized_night and item = paint
        and url = "''x''" and v = ?vv and n = ?nv and p = examplePlan] pn
    by (simp add: paint_def)
  have 4: "handleGenerateNightTour_start ?nv = ?nv" "handleGenerateVideo_start ?vv = ?vv"
    using on_demand_request_guards [where s = allVisualized_night and item = paint
        and url = "''x''" and v = ?vv and n = ?nv and p = examplePlan] nv vv
    by blast+
  have 5: "playSummary_onClick (playSummary_onClick allVisualized_night)
             = playSummary_onClick allVisualized_night"
    using on_demand_request_guards [where s = allVisualized_night and item = paint
        and url = "''x''" and v = ?vv and n = "playSummary_onClick allVisualized_night"
        and p = examplePlan] sl
    by blast
  from 3 ps have g3: "gatewayLog (handleMaterialClick_start paint allVisualized_night)
             = [GenerateProductImage ''Paint'' ''Nordic'']"
    by (simp add: e paint_def)
  from c l 1 2 g3 4 5 e tn tt pn nv vv sl show ?thesis by simp
qed

section \<open>Slideshow index\<close>

text \<open>
  The exponent brackets its argument, rounding to an integer moves a number by at most
  a half, and so rounding a positive number to a double moves it by at most the
  fraction \<open>2^-53\<close> of it, or by \<open>2^-1075\<close> below the normal range.
\<close>

lemma exponent_bounds:
  assumes "0 < x"
  shows "2 powi exponent x \<le> x \<and> x < 2 powi (exponent x + 1)"
proof (cases "1 \<le> x")
  case True
  define m where "m = \<lfloor>x\<rfloor>"
  from True have m: "0 < m" by (simp add: m_def)
  then have b: "1 \<le> bitlen m" by (auto simp: bitlen_alt_def)
  from bitlen_bounds [OF m] have lo: "(2::int) ^ nat (bitlen m - 1) \<le> m" and hi: "m < 2 ^ nat (bitlen m)"
    by simp_all
  have e: "exponent x = bitlen m - 1" using True by (simp add: exponent_def m_def)
  from lo have "real_of_int (2 ^ nat (bitlen m - 1)) \<le> real_of_int m" by linarith
  also have "real_of_int m \<le> x" by (simp add: m_def)
  finally have 1: "2 powi exponent x \<le> x"
    using b by (simp add: e power_int_def)
  from hi have "m + 1 \<le> 2 ^ nat (bitlen m)" by simp
  then have "real_of_int (m + 1) \<le> real_of_int (2 ^ nat (bitlen m))" by linarith
  moreover have "x < real_of_int (m + 1)" by (simp add: m_def)
  ultimately have 2: "x < 2 powi (exponent x + 1)"
    using b by (simp add: e power_int_def)
  from 1 2 show ?thesis ..
next
  case False
  with assms have x: "0 < x" "x < 1" by simp_all
  define c where "c = \<lceil>1 / x\<rceil>"
  define m where "m = c - 1"
  from x have "1 < 1 / x" by simp
  then have "1 < c" unfolding c_def by (simp add: less_ceiling_iff)
  then have m: "0 < m" by (simp add: m_def)
  then have b: "1 \<le> bitlen m" by (auto simp: bitlen_alt_def)
  from bitlen_bounds [OF m] have lo: "(2::int) ^ nat (bitlen m - 1) \<le> m" and hi: "m < 2 ^ nat (bitlen m)"
    by simp_all
  have e: "exponent x = - bitlen m" using False by (simp add: exponent_def m_def c_def)
  have "1 / x \<le> real_of_int c" by (simp add: c_def)
  also from hi have "real_of_int c \<le> real_of_int (2 ^ nat (bitlen m))"
    unfolding m_def by linarith
  finally have "1 / x \<le> 2 ^ nat (bitlen m)" by simp
  with x have "1 \<le> 2 ^ nat (bitlen m) * x" by (simp add: field_simps)
  then have 1: "2 powi exponent x \<le> x"
    using b by (simp add: e power_int_def field_simps power_inverse)
  have "real_of_int m < 1 / x" unfolding m_def c_def by linarith
  with lo have "real_of_int (2 ^ nat (bitlen m - 1)) < 1 / x" by linarith
  then have "2 ^ nat (bitlen m - 1) < 1 / x" by simp
  with x have lt: "2 ^ nat (bitlen m - 1) * x < 1" by (simp add: field_simps)
  have 2: "x < 2 powi (exponent x + 1)"
  proof (cases "bitlen m = 1")
    case True
    with x show ?thesis by (simp add: e)
  next
    case False
    with b have "- bitlen m + 1 < 0" by simp
    moreover have "nat (bitlen m - 1) = nat (- (- bitlen m + 1))" by simp
    ultimately show ?thesis using lt
      by (simp add: e power_int_def field_simps power_inverse)
  qed
  from 1 2 show ?thesis ..
qed

lemma roundHalfEven_error: "\<bar>real_of_int (roundHalfEven y) - y\<bar> \<le> 1 / 2"
  unfolding roundHalfEven_def Let_def by (auto simp: abs_le_iff)

lemma roundHalfEven_nonneg: "0 \<le> y \<Longrightarrow> 0 \<le> roundHalfEven y"
  unfolding roundHalfEven_def Let_def by (auto simp: add_nonneg_nonneg)

lemma fl_nonneg: "0 \<le> x \<Longrightarrow> 0 \<le> fl x"
  by (auto simp: fl_def Let_def roundHalfEven_nonneg zero_le_mult_iff)

lemma fl_error:
  assumes "0 < x"
  shows "\<bar>fl x - x\<bar> \<le> x / 2 ^ 53 + 2 powi (- 1075)"
proof -
  define E where "E = max (exponent x) (- 1022)"
  define q :: real where "q = 2 powi (E - 52)"
  have q: "0 < q" by (simp add: q_def)
  from assms have flx: "fl x = of_int (roundHalfEven (x / q)) * q"
    by (simp add: fl_def Let_def q_def E_def)
  have "fl x - x = (real_of_int (roundHalfEven (x / q)) - x / q) * q"
    using q by (simp add: flx left_diff_distrib)
  then have "\<bar>fl x - x\<bar> = \<bar>real_of_int (roundHalfEven (x / q)) - x / q\<bar> * q"
    using q by (simp add: abs_mult)
  also have "\<dots> \<le> 1 / 2 * q"
    using roundHalfEven_error [of "x / q"] q by (intro mult_right_mono) simp_all
  finally have err: "\<bar>fl x - x\<bar> \<le> q / 2" by simp
  have half: "q / 2 = 2 powi (E - 53)"
    by (simp add: q_def power_int_diff)
  show ?thesis
  proof (cases "- 1022 \<le> exponent x")
    case True
    then have "E = exponent x" by (simp add: E_def)
    then have "q / 2 = 2 powi exponent x / 2 ^ 53"
      by (simp add: half power_int_diff)
    also have "\<dots> \<le> x / 2 ^ 53"
      using exponent_bounds [OF assms] by (simp add: divide_right_mono)
    finally have "q / 2 \<le> x / 2 ^ 53" .
    moreover have "(0::real) \<le> 2 powi (- 1075)" by simp
    ultimately show ?thesis using err by linarith
  next
    case False
    then have "E = - 1022" by (simp add: E_def)
    then have "q / 2 = 2 powi (- 1075)" by (simp add: half)
    moreover have "0 \<le> x / 2 ^ 53" using assms by simp
    ultimately show ?thesis using err by linarith
  qed
qed

lemma fl_zero: "fl 0 = 0"
  by (simp add: fl_def)

lemma fl_error_nonneg:
  assumes "0 \<le> x"
  shows "\<bar>fl x - x\<bar> \<le> x / 2 ^ 53 + 2 powi (- 1075)"
proof (cases "x = 0")
  case True
  then show ?thesis by (simp add: fl_zero)
next
  case False
  with assms have "0 < x" by simp
  then show ?thesis by (rule fl_error)
qed

lemma subnormal_step_small: "(2::real) powi (- 1075) \<le> 1 / 2 ^ 53"
proof -
  have "(2::real) powi (- 1075) = 1 / 2 ^ 1075" by (simp add: power_int_def field_simps power_inverse)
  also have "\<dots> \<le> 1 / 2 ^ 53"
    by (intro divide_left_mono power_increasing) simp_all
  finally show ?thesis .
qed

lemma floor_close:
  fixes r z :: real
  assumes "\<bar>r - z\<bar> < 1"
  shows "\<bar>\<lfloor>r\<rfloor> - \<lfloor>z\<rfloor>\<bar> \<le> 1"
proof -
  from assms have "r \<le> z + 1" "z \<le> r + 1" by linarith+
  then have "\<lfloor>r\<rfloor> \<le> \<lfloor>z + 1\<rfloor> \<and> \<lfloor>z\<rfloor> \<le> \<lfloor>r + 1\<rfloor>"
    by (intro conjI floor_mono)
  then have "\<lfloor>r\<rfloor> \<le> \<lfloor>z\<rfloor> + 1 \<and> \<lfloor>z\<rfloor> \<le> \<lfloor>r\<rfloor> + 1" by simp
  then show ?thesis by linarith
qed

text \<open>
  With at most \<open>2^32\<close> images (the bound on the length of an array), the product computed
  in doubles is within 1 of the exact product.
\<close>

lemma product_error:
  fixes t d :: real
  assumes t: "0 \<le> t" "t < d" and n: "n \<le> 2 ^ 32"
  shows "\<bar>fl (fl (t / d) * real n) - t / d * real n\<bar> < 1"
proof -
  define x where "x = t / d"
  define p where "p = fl x"
  define y where "y = p * real n"
  have x: "0 \<le> x" "x < 1" using t by (simp_all add: x_def)
  have p0: "0 \<le> p" using x by (simp add: p_def fl_nonneg)
  have "\<bar>p - x\<bar> \<le> x / 2 ^ 53 + 2 powi (- 1075)"
    unfolding p_def using x(1) by (rule fl_error_nonneg)
  also have "\<dots> \<le> 1 / 2 ^ 53 + 1 / 2 ^ 53"
    using x subnormal_step_small by (intro add_mono divide_right_mono) simp_all
  finally have ep: "\<bar>p - x\<bar> \<le> 1 / 2 ^ 52" by simp
  have y0: "0 \<le> y" using p0 by (simp add: y_def)
  have N: "real n \<le> 2 ^ 32" using n by (metis of_nat_le_iff of_nat_numeral of_nat_power)
  have "\<bar>y - x * real n\<bar> = \<bar>p - x\<bar> * real n"
    by (simp add: y_def left_diff_distrib [symmetric] abs_mult)
  also have "\<dots> \<le> 1 / 2 ^ 52 * 2 ^ 32"
    using ep N by (intro mult_mono) simp_all
  finally have "\<bar>y - x * real n\<bar> \<le> 1 / 2 ^ 20" by simp
  also have "(1::real) / 2 ^ 20 \<le> 1 / 4" by simp
  finally have ey: "\<bar>y - x * real n\<bar> \<le> 1 / 4" .
  have "x * real n \<le> 1 * 2 ^ 32"
    using x N by (intro mult_mono) simp_all
  then have "x * real n \<le> 4294967296" by simp
  with ey have "y \<le> 8589934592" by linarith
  then have yb: "y \<le> 2 ^ 33" by simp
  have "\<bar>fl y - y\<bar> \<le> y / 2 ^ 53 + 2 powi (- 1075)"
    using y0 by (rule fl_error_nonneg)
  also have "\<dots> \<le> 2 ^ 33 / 2 ^ 53 + 1 / 2 ^ 53"
    using yb subnormal_step_small by (intro add_mono divide_right_mono) simp_all
  finally have "\<bar>fl y - y\<bar> \<le> 1 / 2 ^ 19" by simp
  also have "(1::real) / 2 ^ 19 \<le> 1 / 4" by simp
  finally have ef: "\<bar>fl y - y\<bar> \<le> 1 / 4" .
  from ef ey have "\<bar>fl y - x * real n\<bar> < 1" by linarith
  then show ?thesis by (simp add: y_def p_def x_def)
qed

lemma ideal_in_range:
  fixes t d :: real
  assumes "0 \<le> t" "t < d" "0 < n"
  shows "0 \<le> \<lfloor>t / d * real n\<rfloor> \<and> \<lfloor>t / d * real n\<rfloor> \<le> int n - 1"
proof -
  have x: "0 \<le> t / d" "t / d < 1" using assms by simp_all
  then have "t / d * real n < 1 * real n" using assms(3) by (intro mult_strict_right_mono) simp_all
  then have "\<lfloor>t / d * real n\<rfloor> < int n" by (simp add: floor_less_iff)
  moreover have "0 \<le> t / d * real n" using x(1) by (intro mult_nonneg_nonneg) simp_all
  ultimately show ?thesis by simp
qed

lemma animate_close:
  assumes "0 \<le> t" "t < d" "0 < n" "n \<le> 2 ^ 32"
  shows "\<bar>fst (animate t d n) - min \<lfloor>t / d * real n\<rfloor> (int n - 1)\<bar> \<le> 1"
proof -
  define r where "r = \<lfloor>fl (fl (t / d) * real n)\<rfloor>"
  define z where "z = \<lfloor>t / d * real n\<rfloor>"
  have "\<bar>r - z\<bar> \<le> 1"
    unfolding r_def z_def using product_error [OF assms(1,2,4)] by (rule floor_close)
  moreover have "z \<le> int n - 1"
    unfolding z_def using ideal_in_range [OF assms(1,2,3)] by simp
  moreover have "fst (animate t d n) = min r (int n - 1)"
    using assms by (simp add: animate_def r_def)
  ultimately show ?thesis unfolding z_def [symmetric] by linarith
qed

lemma animate_range:
  assumes "0 \<le> t" "t < d" "0 < n"
  shows "0 \<le> fst (animate t d n) \<and> fst (animate t d n) \<le> int n - 1"
proof -
  have "0 \<le> fl (t / d)" using assms by (intro fl_nonneg) simp
  then have "0 \<le> fl (fl (t / d) * real n)" by (intro fl_nonneg) simp
  then have "0 \<le> \<lfloor>fl (fl (t / d) * real n)\<rfloor>" by simp
  then show ?thesis using assms by (simp add: animate_def)
qed

text \<open>
  C9, as the claim states it, fails when its formula is read over the real numbers. With
  49 images and 49 seconds of audio, at 1 second the formula gives
  \<open>min (floor (1 / 49 * 49)) 48 = 1\<close>; the quotient \<open>1 / 49\<close> is not a double, the double
  nearest to it is smaller, its product with 49 rounds to the double below 1, and the
  frame displays index 0.
\<close>

theorem slideshow_rounding_counterexample:
  "animate 1 49 49 = (0, True)
   \<and> min \<lfloor>(1::real) / 49 * real (49::nat)\<rfloor> (int 49 - 1) = 1"
  by code_simp

text \<open>
  C9, amended. With a non-empty image list and an elapsed time \<open>t\<close> with \<open>0 \<le> t < d\<close>, the
  frame displays the index \<open>min (floor (t / d * n)) (n - 1)\<close> with the quotient and the
  product each rounded to a double; the index lies between \<open>0\<close> and \<open>n - 1\<close> and the frame
  requests another one. When neither operation rounds, the index is the one of the
  formula over the reals, which then is the floor itself; with at most \<open>2^32\<close> images it
  differs from that one by at most 1 in any case. From \<open>t = d\<close> on the frame displays the
  last image and requests no further frame. With 4 images and 8 seconds of audio,
  nothing rounds at 5 seconds and the index is 2.
\<close>

theorem slideshow_index:
  "(0 \<le> t \<and> t < d \<and> 0 < n \<longrightarrow>
      fst (animate t d n) = min \<lfloor>fl (fl (t / d) * real n)\<rfloor> (int n - 1)
    \<and> 0 \<le> fst (animate t d n) \<and> fst (animate t d n) \<le> int n - 1
    \<and> snd (animate t d n)
    \<and> (fl (t / d) = t / d \<and> fl (t / d * real n) = t / d * real n \<longrightarrow>
         fst (animate t d n) = min \<lfloor>t / d * real n\<rfloor> (int n - 1)
       \<and> fst (animate t d n) = \<lfloor>t / d * real n\<rfloor>)
    \<and> (n \<le> 2 ^ 32 \<longrightarrow>
         \<bar>fst (animate t d n) - min \<lfloor>t / d * real n\<rfloor> (int n - 1)\<bar> \<le> 1))
   \<and> (d \<le> t \<longrightarrow> animate t d n = (int n - 1, False))"
proof (intro conjI impI)
  assume a: "0 \<le> t \<and> t < d \<and> 0 < n"
  from a show "fst (animate t d n) = min \<lfloor>fl (fl (t / d) * real n)\<rfloor> (int n - 1)"
    by (simp add: animate_def)
  from a animate_range [of t d n] show "0 \<le> fst (animate t d n)" by blast
  from a animate_range [of t d n] show "fst (animate t d n) \<le> int n - 1" by blast
  from a show "snd (animate t d n)" by (simp add: animate_def)
  {
    assume e: "fl (t / d) = t / d \<and> fl (t / d * real n) = t / d * real n"
    with a have m: "fst (animate t d n) = min \<lfloor>t / d * real n\<rfloor> (int n - 1)"
      by (simp add: animate_def)
    then show "fst (animate t d n) = min \<lfloor>t / d * real n\<rfloor> (int n - 1)" .
    from a ideal_in_range [of t d n] have "\<lfloor>t / d * real n\<rfloor> \<le> int n - 1" by blast
    with m show "fst (animate t d n) = \<lfloor>t / d * real n\<rfloor>" by simp
  }
  {
    assume "n \<le> 2 ^ 32"
    with a animate_close [of t d n]
    show "\<bar>fst (animate t d n) - min \<lfloor>t / d * real n\<rfloor> (int n - 1)\<bar> \<le> 1" by blast
  }
next
  assume "d \<le> t"
  then show "animate t d n = (int n - 1, False)" by (simp add: animate_def)
qed

theorem slideshow_index_witness:
  "(0::real) \<le> 5 \<and> (5::real) < 8 \<and> (0::nat) < 4 \<and> (4::nat) \<le> 2 ^ 32
   \<and> fl (5 / 8) = 5 / 8 \<and> fl (5 / 8 * real (4::nat)) = 5 / 8 * real (4::nat)
   \<and> fst (animate 5 8 4) = 2 \<and> snd (animate 5 8 4)
   \<and> animate 8 8 4 = (3, False) \<and> animate 9 8 4 = (3, False)"
proof -
  have e: "fl (5 / 8) = 5 / 8 \<and> fl (5 / 8 * real (4::nat)) = 5 / 8 * real (4::nat)"
    by code_simp
  have h: "(0::real) \<le> 5 \<and> (5::real) < 8 \<and> (0::nat) < 4" by simp
  have b: "(4::nat) \<le> 2 ^ 32" by simp
  from slideshow_index [of 5 8 4] h e
  have "fst (animate 5 8 4) = \<lfloor>(5::real) / 8 * real (4::nat)\<rfloor>" and s: "snd (animate 5 8 4)"
    by blast+
  then have i: "fst (animate 5 8 4) = 2" by simp
  from slideshow_index [of 8 8 4] have f8: "animate 8 8 4 = (3, False)" by simp
  from slideshow_index [of 9 8 4] have f9: "animate 9 8 4 = (3, False)" by simp
  from h b e i s f8 f9 show ?thesis by blast
qed

section \<open>Moving and deleting substeps\<close>

text \<open>
  The checklist key determines the pair of indices it was made from.
\<close>

lemma digit_cases: "d < 10 \<Longrightarrow> d \<in> {0, 1, 2, 3, 4, 5, 6, 7, 8, 9::nat}"
  by auto

lemma digitValue_digit: "d < 10 \<Longrightarrow> digitValue (digit d) = d"
  using digit_cases [of d] by (auto simp: digitValue_def digit_def)

lemma digit_not_dash: "d < 10 \<Longrightarrow> digit d \<noteq> CHR ''-''"
  using digit_cases [of d] by (auto simp: digit_def)

lemma parseNat_snoc: "parseNat (cs @ [c]) = 10 * parseNat cs + digitValue c"
  by (simp add: parseNat_def)

lemma parseNat_toString: "parseNat (toString n) = n"
proof (induction n rule: toString.induct)
  case (1 n)
  show ?case
  proof (cases "n < 10")
    case True
    then show ?thesis
      by (subst toString.simps) (simp add: parseNat_def digitValue_digit)
  next
    case False
    with 1 have "parseNat (toString (n div 10)) = n div 10" by simp
    with False show ?thesis
      by (subst toString.simps) (simp add: parseNat_snoc digitValue_digit)
  qed
qed

lemma toString_inj: "toString a = toString b \<Longrightarrow> a = b"
  by (metis parseNat_toString)

lemma dash_notin_toString: "CHR ''-'' \<notin> set (toString n)"
proof (induction n rule: toString.induct)
  case (1 n)
  show ?case
  proof (cases "n < 10")
    case True
    then show ?thesis
      using digit_not_dash [of n] by (subst toString.simps) auto
  next
    case False
    with 1 have "CHR ''-'' \<notin> set (toString (n div 10))" by simp
    moreover have "digit (n mod 10) \<noteq> CHR ''-''" by (rule digit_not_dash) simp
    ultimately show ?thesis using False
      by (subst toString.simps) auto
  qed
qed

lemma substepKey_inj: "substepKey a b = substepKey c d \<longleftrightarrow> a = c \<and> b = d"
proof
  assume "substepKey a b = substepKey c d"
  then have "toString a @ CHR ''-'' # toString b = toString c @ CHR ''-'' # toString d"
    by (simp add: substepKey_def)
  then have "toString a = toString c \<and> toString b = toString d"
    using append_Cons_eq_iff [OF dash_notin_toString dash_notin_toString] by blast
  then show "a = c \<and> b = d" by (auto dest: toString_inj)
qed simp

lemma moveSubstep_down:
  fixes s :: "'a app_scheme"
  assumes "plan s = Some p" "sIdx < length (steps p)" "Suc j < length (substeps (steps p ! sIdx))"
  shows "moveSubstep sIdx j 1 s =
     Inr (s\<lparr>plan := Some (setSubsteps sIdx
                 ((substeps (steps p ! sIdx))[j := substeps (steps p ! sIdx) ! Suc j,
                    Suc j := substeps (steps p ! sIdx) ! j]) p),
            completedSubsteps := swapCompletion (substepKey sIdx j) (substepKey sIdx (Suc j))
               (completedSubsteps s)\<rparr>)"
  using assms by (simp add: moveSubstep_def Let_def nat_add_distrib)

lemma moveSubstep_up:
  fixes s :: "'a app_scheme"
  assumes "plan s = Some p" "sIdx < length (steps p)" "Suc j < length (substeps (steps p ! sIdx))"
  shows "moveSubstep sIdx (Suc j) (- 1) s =
     Inr (s\<lparr>plan := Some (setSubsteps sIdx
                 ((substeps (steps p ! sIdx))[Suc j := substeps (steps p ! sIdx) ! j,
                    j := substeps (steps p ! sIdx) ! Suc j]) p),
            completedSubsteps := swapCompletion (substepKey sIdx (Suc j)) (substepKey sIdx j)
               (completedSubsteps s)\<rparr>)"
  using assms by (simp add: moveSubstep_def Let_def)

lemma swapCompletion_commute:
  "swapCompletion k1 k2 m = swapCompletion k2 k1 m"
  by (auto simp: swapCompletion_def Let_def fun_eq_iff)

lemma moveSubstep_up_down:
  fixes s :: "'a app_scheme"
  assumes "plan s = Some p" "sIdx < length (steps p)" "Suc j < length (substeps (steps p ! sIdx))"
  shows "moveSubstep sIdx (Suc j) (- 1) s = moveSubstep sIdx j 1 s"
  unfolding moveSubstep_up [OF assms] moveSubstep_down [OF assms]
  by (simp add: swapCompletion_commute [of "substepKey sIdx (Suc j)"] list_update_swap [of j "Suc j"])

lemma steps_setSubsteps:
  "sIdx < length (steps p) \<Longrightarrow>
     length (steps (setSubsteps sIdx subs p)) = length (steps p)
   \<and> substeps (steps (setSubsteps sIdx subs p) ! sIdx) = subs
   \<and> (\<forall>t. t \<noteq> sIdx \<longrightarrow> steps (setSubsteps sIdx subs p) ! t = steps p ! t)"
  by (simp add: setSubsteps_def)

text \<open>
  C7. In a step \<open>sIdx\<close> of the plan, for adjacent substep indices \<open>j\<close> and \<open>j + 1\<close>,
  moving \<open>j\<close> down and moving \<open>j + 1\<close> up give the same state: the two texts are
  exchanged, the other substeps and the other steps stay, the completion entries of the
  two positions are exchanged (so each checkbox follows its text) and every other
  completion entry stays. When the target index is outside the list the state is
  unchanged.
\<close>

theorem moveSubstep_swaps_text_and_completion:
  fixes s :: "'a app_scheme"
  assumes "plan s = Some p" and "sIdx < length (steps p)"
  shows "(Suc j < length (substeps (steps p ! sIdx)) \<longrightarrow>
           (\<exists>s' p'. moveSubstep sIdx j 1 s = Inr s' \<and> moveSubstep sIdx (Suc j) (- 1) s = Inr s'
              \<and> plan s' = Some p' \<and> length (steps p') = length (steps p)
              \<and> substeps (steps p' ! sIdx) =
                  (substeps (steps p ! sIdx))[j := substeps (steps p ! sIdx) ! Suc j,
                     Suc j := substeps (steps p ! sIdx) ! j]
              \<and> (\<forall>t. t \<noteq> sIdx \<longrightarrow> steps p' ! t = steps p ! t)
              \<and> completedSubsteps s' (substepKey sIdx j) = completedSubsteps s (substepKey sIdx (Suc j))
              \<and> completedSubsteps s' (substepKey sIdx (Suc j)) = completedSubsteps s (substepKey sIdx j)
              \<and> checked s' sIdx j = checked s sIdx (Suc j)
              \<and> checked s' sIdx (Suc j) = checked s sIdx j
              \<and> (\<forall>a b. (a, b) \<noteq> (sIdx, j) \<and> (a, b) \<noteq> (sIdx, Suc j) \<longrightarrow>
                    completedSubsteps s' (substepKey a b) = completedSubsteps s (substepKey a b))))
       \<and> (\<forall>subIdx direction.
             int subIdx + direction < 0
               \<or> int (length (substeps (steps p ! sIdx))) \<le> int subIdx + direction \<longrightarrow>
             moveSubstep sIdx subIdx direction s = Inr s)"
proof (intro conjI impI allI)
  assume j: "Suc j < length (substeps (steps p ! sIdx))"
  let ?s' = "s\<lparr>plan := Some (setSubsteps sIdx
                 ((substeps (steps p ! sIdx))[j := substeps (steps p ! sIdx) ! Suc j,
                    Suc j := substeps (steps p ! sIdx) ! j]) p),
            completedSubsteps := swapCompletion (substepKey sIdx j) (substepKey sIdx (Suc j))
               (completedSubsteps s)\<rparr>"
  have d: "moveSubstep sIdx j 1 s = Inr ?s'"
    by (rule moveSubstep_down [OF assms j])
  have u: "moveSubstep sIdx (Suc j) (- 1) s = Inr ?s'"
    using moveSubstep_up_down [OF assms j] d by simp
  have k: "substepKey sIdx j \<noteq> substepKey sIdx (Suc j)"
    by (simp add: substepKey_inj)
  have c1: "completedSubsteps ?s' (substepKey sIdx j) = completedSubsteps s (substepKey sIdx (Suc j))"
    using k by (simp add: swapCompletion_def Let_def)
  have c2: "completedSubsteps ?s' (substepKey sIdx (Suc j)) = completedSubsteps s (substepKey sIdx j)"
    by (simp add: swapCompletion_def Let_def)
  have c3: "completedSubsteps ?s' (substepKey a b) = completedSubsteps s (substepKey a b)"
    if "(a, b) \<noteq> (sIdx, j) \<and> (a, b) \<noteq> (sIdx, Suc j)" for a b
    using that by (auto simp: swapCompletion_def Let_def substepKey_inj)
  show "\<exists>s' p'. moveSubstep sIdx j 1 s = Inr s' \<and> moveSubstep sIdx (Suc j) (- 1) s = Inr s'
              \<and> plan s' = Some p' \<and> length (steps p') = length (steps p)
              \<and> substeps (steps p' ! sIdx) =
                  (substeps (steps p ! sIdx))[j := substeps (steps p ! sIdx) ! Suc j,
                     Suc j := substeps (steps p ! sIdx) ! j]
              \<and> (\<forall>t. t \<noteq> sIdx \<longrightarrow> steps p' ! t = steps p ! t)
              \<and> completedSubsteps s' (substepKey sIdx j) = completedSubsteps s (substepKey sIdx (Suc j))
              \<and> completedSubsteps s' (substepKey sIdx (Suc j)) = completedSubsteps s (substepKey sIdx j)
              \<and> checked s' sIdx j = checked s sIdx (Suc j)
              \<and> checked s' sIdx (Suc j) = checked s sIdx j
              \<and> (\<forall>a b. (a, b) \<noteq> (sIdx, j) \<and> (a, b) \<noteq> (sIdx, Suc j) \<longrightarrow>
                    completedSubsteps s' (substepKey a b) = completedSubsteps s (substepKey a b))"
    apply (rule exI [of _ ?s'])
    apply (rule exI [of _ "setSubsteps sIdx
                 ((substeps (steps p ! sIdx))[j := substeps (steps p ! sIdx) ! Suc j,
                    Suc j := substeps (steps p ! sIdx) ! j]) p"])
    using d u c1 c2 c3 steps_setSubsteps [OF assms(2)]
    apply (simp add: checked_def)
    done
next
  fix subIdx :: nat and direction :: int
  assume "int subIdx + direction < 0
               \<or> int (length (substeps (steps p ! sIdx))) \<le> int subIdx + direction"
  with assms show "moveSubstep sIdx subIdx direction s = Inr s"
    by (auto simp: moveSubstep_def Let_def)
qed


lemma keys_example:
  "substepKey 0 0 = ''0-0''" "substepKey 0 (Suc 0) = ''0-1''" "substepKey 0 2 = ''0-2''"
  by (simp_all add: substepKey_def toString.simps digit_def)

theorem moveSubstep_swaps_text_and_completion_witness:
  "plan checklistExample = Some examplePlan \<and> 0 < length (steps examplePlan)
   \<and> Suc 0 < length (substeps (steps examplePlan ! 0))
   \<and> (\<exists>s' p'. moveSubstep 0 1 (- 1) checklistExample = Inr s' \<and> plan s' = Some p'
         \<and> substeps (steps p' ! 0) = [''B'', ''A'', ''C'']
         \<and> completedSubsteps s' ''0-0'' = Some True
         \<and> completedSubsteps s' ''0-1'' = Some False
         \<and> completedSubsteps s' ''0-2'' = Some False)"
proof -
  have p: "plan checklistExample = Some examplePlan"
    by (simp add: checklistExample_def resultState_variants_def)
  have l: "0 < length (steps examplePlan)"
    by (simp add: examplePlan_def)
  have subs: "substeps (steps examplePlan ! 0) = [''A'', ''B'', ''C'']"
    by (simp add: examplePlan_def exampleStep_def)
  have c: "completedSubsteps checklistExample ''0-0'' = Some False"
    "completedSubsteps checklistExample ''0-1'' = Some True"
    "completedSubsteps checklistExample ''0-2'' = Some False"
    by (simp_all add: checklistExample_def)
  from moveSubstep_swaps_text_and_completion [OF p l, of 0]
  obtain s' p' where m: "moveSubstep 0 (Suc 0) (- 1) checklistExample = Inr s'"
    and "plan s' = Some p'"
    and "substeps (steps p' ! 0) = [''B'', ''A'', ''C'']"
    and "completedSubsteps s' (substepKey 0 0) = completedSubsteps checklistExample (substepKey 0 (Suc 0))"
    and "completedSubsteps s' (substepKey 0 (Suc 0)) = completedSubsteps checklistExample (substepKey 0 0)"
    and "\<forall>a b. (a, b) \<noteq> (0, 0) \<and> (a, b) \<noteq> (0, Suc 0) \<longrightarrow>
           completedSubsteps s' (substepKey a b) = completedSubsteps checklistExample (substepKey a b)"
    by (auto simp: subs)
  moreover from this have "completedSubsteps s' (substepKey 0 2) = completedSubsteps checklistExample (substepKey 0 2)"
    by simp
  ultimately have "moveSubstep 0 1 (- 1) checklistExample = Inr s' \<and> plan s' = Some p'
         \<and> substeps (steps p' ! 0) = [''B'', ''A'', ''C'']
         \<and> completedSubsteps s' ''0-0'' = Some True
         \<and> completedSubsteps s' ''0-1'' = Some False
         \<and> completedSubsteps s' ''0-2'' = Some False"
    by (simp add: keys_example c)
  then have "\<exists>s' p'. moveSubstep 0 1 (- 1) checklistExample = Inr s' \<and> plan s' = Some p'
         \<and> substeps (steps p' ! 0) = [''B'', ''A'', ''C'']
         \<and> completedSubsteps s' ''0-0'' = Some True
         \<and> completedSubsteps s' ''0-1'' = Some False
         \<and> completedSubsteps s' ''0-2'' = Some False"
    by blast
  with p l subs show ?thesis by simp
qed

text \<open>
  deleteSubstep removes the substep at the index from the list of its step, leaves the
  other steps as they are, and does not write the completion map.
\<close>

lemma deleteSubstep_removes:
  fixes s :: "'a app_scheme"
  assumes "plan s = Some p" and "sIdx < length (steps p)"
  shows "\<exists>s' p'. deleteSubstep sIdx j s = Inr s' \<and> plan s' = Some p'
           \<and> length (steps p') = length (steps p)
           \<and> substeps (steps p' ! sIdx) =
               take j (substeps (steps p ! sIdx)) @ drop (Suc j) (substeps (steps p ! sIdx))
           \<and> (\<forall>t. t \<noteq> sIdx \<longrightarrow> steps p' ! t = steps p ! t)
           \<and> completedSubsteps s' = completedSubsteps s"
  using assms by (simp add: deleteSubstep_def setSubsteps_def splice1_def)

text \<open>
  C8. The claim is that after a deletion the completion entries at and beyond the
  deleted position count as absent, so that a substep moving into a ticked position is
  not ticked. With A, B, C in step 0 and only A ticked, deleting A leaves B, C and the
  completion map as it was: B, unticked before, now sits at position 0 and is ticked.
\<close>

theorem deleteSubstep_leaves_stale_completion:
  "deleteSubstep 0 0 firstTicked
     = Inr (firstTicked\<lparr>plan := Some (setSubsteps 0 [''B'', ''C''] examplePlan)\<rparr>)
   \<and> substeps (steps examplePlan ! 0) = [''A'', ''B'', ''C'']
   \<and> checked firstTicked 0 0 \<and> \<not> checked firstTicked 0 1
   \<and> checked (firstTicked\<lparr>plan := Some (setSubsteps 0 [''B'', ''C''] examplePlan)\<rparr>) 0 0"
  by (simp add: deleteSubstep_def firstTicked_def toggleSubstep_def resultState_variants_def
      examplePlan_def exampleStep_def splice1_def checked_def substepKey_def toString.simps
      digit_def setSubsteps_def)

end
